theory Spec2Isabelle
  imports Complex_Main "HOL-Library.Sublist" "HOL-Library.Multiset"
begin

section \<open>Conventions of the embedding\<close>

text \<open>
  The program is a Go fan controller. Its \<open>float64\<close> values are modelled as \<open>real\<close>:
  rounding, overflow and signed zeros are idealised away, and a \<open>NaN\<close> is written out only
  where the program can produce one from finite operands (the division that ends
  \<open>GetAverageOfWarmest\<close>). Go's \<open>int\<close> is modelled as \<open>int\<close>, with the 64-bit wrap-around
  written out where the program adds values that come from outside (the sum of
  \<open>GetAverageOfWarmest\<close>); the failure counter grows by one in an iteration and stays
  far from \<open>2 ^ 63\<close>. A \<open>time.Time\<close> is a \<open>real\<close> number of seconds since the zero time, and the
  clock reading \<open>time.Now()\<close> is an argument of the function that takes it.
\<close>

section \<open>The PID engine\<close>

record PIDController =
  Kp :: real
  Ki :: real
  Kd :: real
  Target :: real
  Integral :: real
  PrevError :: real
  PrevTime :: real
  FirstRun :: bool
  MinOutput :: real
  MaxOutput :: real
  IntegralMax :: real

text \<open>The fields \<open>P\<close>, \<open>I\<close>, \<open>D\<close>, \<open>Error\<close> of \<open>PIDTerms\<close>, with a prefix.\<close>

record PIDTerms =
  term_P :: real
  term_I :: real
  term_D :: real
  term_Error :: real

definition NewPIDController ::
  "real \<Rightarrow> real \<Rightarrow> real \<Rightarrow> real \<Rightarrow> real \<Rightarrow> real \<Rightarrow> real \<Rightarrow> PIDController" where
  "NewPIDController kp ki kd target minOutput maxOutput integralMax =
     \<lparr>Kp = kp, Ki = ki, Kd = kd, Target = target,
      Integral = 0, PrevError = 0, PrevTime = 0, FirstRun = True,
      MinOutput = minOutput, MaxOutput = maxOutput, IntegralMax = integralMax\<rparr>"

definition clamp :: "real \<Rightarrow> real \<Rightarrow> real \<Rightarrow> real" where
  "clamp v lo hi = (if v < lo then lo else if v > hi then hi else v)"

text \<open>
  \<open>Calculate\<close> mutates the controller through its pointer receiver; the model returns
  the output, the terms and the updated controller. \<open>now\<close> is the value of \<open>time.Now()\<close>.
\<close>

definition Calculate :: "PIDController \<Rightarrow> real \<Rightarrow> real \<Rightarrow> real \<times> PIDTerms \<times> PIDController" where
  "Calculate p current now =
     (let err = current - Target p;
          dt = (if \<not> FirstRun p then now - PrevTime p else 1);
          proportional = Kp p * err;
          integral = Integral p + err * dt;
          integralClamped = clamp integral (- IntegralMax p) (IntegralMax p);
          derivative = (if \<not> FirstRun p \<and> dt > 0 then Kd p * (err - PrevError p) / dt else 0);
          output = proportional + integralClamped + derivative;
          output' = clamp output (MinOutput p) (MaxOutput p)
      in (output',
          \<lparr>term_P = proportional, term_I = integralClamped, term_D = derivative, term_Error = err\<rparr>,
          p\<lparr>Integral := integralClamped, PrevError := err, PrevTime := now, FirstRun := False\<rparr>))"


definition SetTarget :: "PIDController \<Rightarrow> real \<Rightarrow> PIDController" where
  "SetTarget p target = p\<lparr>Target := target\<rparr>"

definition SetGains :: "PIDController \<Rightarrow> real \<Rightarrow> real \<Rightarrow> real \<Rightarrow> PIDController" where
  "SetGains p kp ki kd = p\<lparr>Kp := kp, Ki := ki, Kd := kd\<rparr>"

definition SetLimits :: "PIDController \<Rightarrow> real \<Rightarrow> real \<Rightarrow> PIDController" where
  "SetLimits p minOutput maxOutput = p\<lparr>MinOutput := minOutput, MaxOutput := maxOutput\<rparr>"

definition SetIntegralMax :: "PIDController \<Rightarrow> real \<Rightarrow> PIDController" where
  "SetIntegralMax p integralMax = p\<lparr>IntegralMax := integralMax\<rparr>"

text \<open>
  A finite sequence of \<open>Calculate\<close> calls on one controller: each element is the sample
  and the clock reading of one call. The outputs are dropped, the controller is kept.
\<close>

fun Calculate_seq :: "PIDController \<Rightarrow> (real \<times> real) list \<Rightarrow> PIDController" where
  "Calculate_seq p [] = p"
| "Calculate_seq p ((current, now) # calls) = Calculate_seq (snd (snd (Calculate p current now))) calls"

text \<open>
  The duty output that a controller with an integral gain computes, in the two conventions
  the specification allows. These two definitions follow the specification, not the
  source: in the first \<open>Ki\<close> is applied when accumulating, in the second \<open>Ki\<close> multiplies
  the stored (clamped) accumulator. The proportional and derivative terms are those of
  \<open>Calculate\<close>.
\<close>

definition spec_output_Ki_accumulating :: "PIDController \<Rightarrow> real \<Rightarrow> real \<Rightarrow> real" where
  "spec_output_Ki_accumulating p current now =
     (let err = current - Target p;
          dt = (if \<not> FirstRun p then now - PrevTime p else 1);
          derivative = (if \<not> FirstRun p \<and> dt > 0 then Kd p * (err - PrevError p) / dt else 0);
          folded = clamp (Integral p + Ki p * err * dt) (- IntegralMax p) (IntegralMax p)
      in clamp (Kp p * err + folded + derivative) (MinOutput p) (MaxOutput p))"

definition spec_output_Ki_weighting :: "PIDController \<Rightarrow> real \<Rightarrow> real \<Rightarrow> real" where
  "spec_output_Ki_weighting p current now =
     (let err = current - Target p;
          dt = (if \<not> FirstRun p then now - PrevTime p else 1);
          derivative = (if \<not> FirstRun p \<and> dt > 0 then Kd p * (err - PrevError p) / dt else 0);
          folded = Ki p * clamp (Integral p + err * dt) (- IntegralMax p) (IntegralMax p)
      in clamp (Kp p * err + folded + derivative) (MinOutput p) (MaxOutput p))"

section \<open>The configuration\<close>

record ServerConfig =
  MetricsPort :: int
  LogLevel :: string

text \<open>\<open>PollInterval\<close> is a \<open>time.Duration\<close>: a number of nanoseconds.\<close>

record TemperatureConfig =
  TargetHDD :: real
  MaxHDD :: real
  MaxCPU :: real
  PollInterval :: int
  WarmestDisks :: int

record FanConfig =
  MinDuty :: int
  MaxDuty :: int
  StartupDuty :: int

text \<open>The fields \<open>Kp\<close>, \<open>Ki\<close>, \<open>Kd\<close>, \<open>IntegralMax\<close> of \<open>PIDConfig\<close>, with a prefix.\<close>

record PIDConfig =
  cfg_Kp :: real
  cfg_Ki :: real
  cfg_Kd :: real
  cfg_IntegralMax :: real

record DiskConfig =
  ExcludePatterns :: "string list"

record Config =
  Server :: ServerConfig
  Temperature :: TemperatureConfig
  Fans :: FanConfig
  PID :: PIDConfig
  Disks :: DiskConfig

text \<open>
  \<open>setDefaults\<close> is a sequence of fifteen independent tests, one for each field, each
  assigning to the field it tests; the model builds the resulting structure field by field.
\<close>

definition setDefaults :: "Config \<Rightarrow> Config" where
  "setDefaults config =
     \<lparr>Server =
        \<lparr>MetricsPort = (if MetricsPort (Server config) = 0 then 9090 else MetricsPort (Server config)),
         LogLevel = (if LogLevel (Server config) = [] then ''info'' else LogLevel (Server config))\<rparr>,
      Temperature =
        \<lparr>TargetHDD = (if TargetHDD (Temperature config) = 0 then 38.0 else TargetHDD (Temperature config)),
         MaxHDD = (if MaxHDD (Temperature config) = 0 then 40.0 else MaxHDD (Temperature config)),
         MaxCPU = (if MaxCPU (Temperature config) = 0 then 75.0 else MaxCPU (Temperature config)),
         PollInterval = (if PollInterval (Temperature config) = 0 then 30 * 1000000000
                         else PollInterval (Temperature config)),
         WarmestDisks = (if WarmestDisks (Temperature config) = 0 then 4
                         else WarmestDisks (Temperature config))\<rparr>,
      Fans =
        \<lparr>MinDuty = (if MinDuty (Fans config) = 0 then 30 else MinDuty (Fans config)),
         MaxDuty = (if MaxDuty (Fans config) = 0 then 100 else MaxDuty (Fans config)),
         StartupDuty = (if StartupDuty (Fans config) = 0 then 50 else StartupDuty (Fans config))\<rparr>,
      PID =
        \<lparr>cfg_Kp = (if cfg_Kp (PID config) = 0 then 5.0 else cfg_Kp (PID config)),
         cfg_Ki = (if cfg_Ki (PID config) = 0 then 0.1 else cfg_Ki (PID config)),
         cfg_Kd = (if cfg_Kd (PID config) = 0 then 20.0 else cfg_Kd (PID config)),
         cfg_IntegralMax = (if cfg_IntegralMax (PID config) = 0 then 50.0
                            else cfg_IntegralMax (PID config))\<rparr>,
      Disks =
        \<lparr>ExcludePatterns = (if length (ExcludePatterns (Disks config)) = 0
                            then [''^loop'', ''^sr'', ''^zram'', ''^zd'', ''^dm-'']
                            else ExcludePatterns (Disks config))\<rparr>\<rparr>"

text \<open>The zero value of \<open>Config\<close>, into which \<open>LoadConfig\<close> lets the YAML library write.\<close>

definition zero_Config :: Config where
  "zero_Config =
     \<lparr>Server = \<lparr>MetricsPort = 0, LogLevel = []\<rparr>,
      Temperature = \<lparr>TargetHDD = 0, MaxHDD = 0, MaxCPU = 0, PollInterval = 0, WarmestDisks = 0\<rparr>,
      Fans = \<lparr>MinDuty = 0, MaxDuty = 0, StartupDuty = 0\<rparr>,
      PID = \<lparr>cfg_Kp = 0, cfg_Ki = 0, cfg_Kd = 0, cfg_IntegralMax = 0\<rparr>,
      Disks = \<lparr>ExcludePatterns = []\<rparr>\<rparr>"

text \<open>The errors of \<open>Validate\<close>, one for each message, and those of \<open>LoadConfig\<close>.\<close>

datatype config_error =
    TargetNotBelowMax
  | TargetHDDNotPositive
  | MaxHDDNotPositive
  | MaxCPUNotPositive
  | PollIntervalNotPositive
  | WarmestDisksNotPositive
  | MinDutyOutOfRange
  | MaxDutyOutOfRange
  | StartupDutyOutOfRange
  | MinDutyNotBelowMaxDuty
  | KpNegative
  | KiNegative
  | KdNegative
  | IntegralMaxNotPositive
  | MetricsPortOutOfRange
  | LogLevelUnknown

datatype load_error = ReadFailed | ParseFailed | ValidationFailed config_error

definition Validate :: "Config \<Rightarrow> config_error option" where
  "Validate c =
     (if TargetHDD (Temperature c) \<ge> MaxHDD (Temperature c) then Some TargetNotBelowMax
      else if TargetHDD (Temperature c) \<le> 0 then Some TargetHDDNotPositive
      else if MaxHDD (Temperature c) \<le> 0 then Some MaxHDDNotPositive
      else if MaxCPU (Temperature c) \<le> 0 then Some MaxCPUNotPositive
      else if PollInterval (Temperature c) \<le> 0 then Some PollIntervalNotPositive
      else if WarmestDisks (Temperature c) \<le> 0 then Some WarmestDisksNotPositive
      else if MinDuty (Fans c) < 0 \<or> MinDuty (Fans c) > 100 then Some MinDutyOutOfRange
      else if MaxDuty (Fans c) < 0 \<or> MaxDuty (Fans c) > 100 then Some MaxDutyOutOfRange
      else if StartupDuty (Fans c) < 0 \<or> StartupDuty (Fans c) > 100 then Some StartupDutyOutOfRange
      else if MinDuty (Fans c) \<ge> MaxDuty (Fans c) then Some MinDutyNotBelowMaxDuty
      else if cfg_Kp (PID c) < 0 then Some KpNegative
      else if cfg_Ki (PID c) < 0 then Some KiNegative
      else if cfg_Kd (PID c) < 0 then Some KdNegative
      else if cfg_IntegralMax (PID c) \<le> 0 then Some IntegralMaxNotPositive
      else if MetricsPort (Server c) \<le> 0 \<or> MetricsPort (Server c) > 65535 then Some MetricsPortOutOfRange
      else if LogLevel (Server c) \<noteq> ''debug'' \<and> LogLevel (Server c) \<noteq> ''info'' \<and>
              LogLevel (Server c) \<noteq> ''warn'' \<and> LogLevel (Server c) \<noteq> ''error'' then Some LogLevelUnknown
      else None)"

text \<open>
  \<open>LoadConfig\<close> reads a file and hands its bytes to the YAML library. Both are outside
  the program: \<open>readFile\<close> is the file system (\<open>None\<close> when \<open>os.ReadFile\<close> fails) and
  \<open>unmarshal\<close> is \<open>yaml.Unmarshal\<close> into a zero-valued \<open>Config\<close> (\<open>None\<close> when it fails;
  a field absent from the file keeps its zero value).
\<close>

definition LoadConfig ::
  "(string \<Rightarrow> string option) \<Rightarrow> (string \<Rightarrow> Config option) \<Rightarrow> string \<Rightarrow> load_error + Config" where
  "LoadConfig readFile unmarshal path =
     (case readFile path of
        None \<Rightarrow> Inl ReadFailed
      | Some data \<Rightarrow>
          (case unmarshal data of
             None \<Rightarrow> Inl ParseFailed
           | Some parsed \<Rightarrow>
               (let config = setDefaults parsed
                in case Validate config of
                     Some err \<Rightarrow> Inl (ValidationFailed err)
                   | None \<Rightarrow> Inr config)))"

section \<open>The sensor layer\<close>

text \<open>
  A temperature map (\<open>map[string]int\<close>) is the list of its entries in the order in which a
  \<open>range\<close> loop visits them. Go leaves that order unspecified; the results below are
  proved for every order.

  The one \<open>float64\<close> division of the program whose divisor can be zero is written out
  with its IEEE 754 results: Go does not panic on a floating-point division by zero.
\<close>

datatype float64 = Finite real | PosInf | NegInf | NaN

definition float64_div :: "real \<Rightarrow> real \<Rightarrow> float64" where
  "float64_div a b =
     (if b \<noteq> 0 then Finite (a / b)
      else if a = 0 then NaN
      else if a > 0 then PosInf else NegInf)"

text \<open>
  The bubble sort of \<open>GetAverageOfWarmest\<close>: \<open>len\<close> is \<open>len(tempSlice)\<close>, which the
  swaps do not change. The inner loop runs \<open>j\<close> while \<open>j < len - i - 1\<close>, the outer loop
  runs \<open>i\<close> while \<open>i < len - 1\<close>; both reads of the inner loop are in range.
\<close>

function bubble_inner :: "nat \<Rightarrow> int list \<Rightarrow> nat \<Rightarrow> nat \<Rightarrow> int list" where
  "bubble_inner len tempSlice i j =
     (if int j < int len - int i - 1
      then bubble_inner len
             (if tempSlice ! j < tempSlice ! (j + 1)
              then tempSlice[j := tempSlice ! (j + 1), j + 1 := tempSlice ! j]
              else tempSlice)
             i (j + 1)
      else tempSlice)"
  by pat_completeness auto
termination
  by (relation "measure (\<lambda>(len, tempSlice, i, j). len - j)") auto

declare bubble_inner.simps [simp del]

function bubble_outer :: "nat \<Rightarrow> int list \<Rightarrow> nat \<Rightarrow> int list" where
  "bubble_outer len tempSlice i =
     (if int i < int len - 1
      then bubble_outer len (bubble_inner len tempSlice i 0) (i + 1)
      else tempSlice)"
  by pat_completeness auto
termination
  by (relation "measure (\<lambda>(len, tempSlice, i). len - i)") auto

declare bubble_outer.simps [simp del]

text \<open>
  Go's \<open>int\<close> has 64 bits here and its addition wraps around: \<open>wrap64\<close> brings an
  integer back into the range from \<open>- 2 ^ 63\<close> to \<open>2 ^ 63 - 1\<close>.
\<close>

definition wrap64 :: "int \<Rightarrow> int" where
  "wrap64 x = (x + 2 ^ 63) mod 2 ^ 64 - 2 ^ 63"

text \<open>
  The summing loop: \<open>i\<close> runs while \<open>i < take\<close>, and \<open>take\<close> may be zero or negative;
  \<open>sum += tempSlice[i]\<close> is an addition of \<open>int\<close> and wraps.
  The variables \<open>take\<close> and \<open>sum\<close> of the source are \<open>take_n\<close> and \<open>acc\<close>.
\<close>

function sum_loop :: "int list \<Rightarrow> int \<Rightarrow> nat \<Rightarrow> int \<Rightarrow> int" where
  "sum_loop tempSlice take_n i acc =
     (if int i < take_n then sum_loop tempSlice take_n (i + 1) (wrap64 (acc + tempSlice ! i))
      else acc)"
  by pat_completeness auto
termination
  by (relation "measure (\<lambda>(tempSlice, take_n, i, acc). nat take_n - i)") auto

declare sum_loop.simps [simp del]

definition GetAverageOfWarmest :: "(string \<times> int) list \<Rightarrow> int \<Rightarrow> float64" where
  "GetAverageOfWarmest temps n =
     (if length temps = 0 then Finite 0.0
      else
        (let tempSlice = map snd temps;
             tempSlice' = bubble_outer (length tempSlice) tempSlice 0;
             take_n = (if int (length tempSlice') < n then int (length tempSlice') else n);
             acc = sum_loop tempSlice' take_n 0 0
         in float64_div (real_of_int acc) (real_of_int take_n)))"

definition GetMaxTemperature :: "(string \<times> int) list \<Rightarrow> int" where
  "GetMaxTemperature temps = fold (\<lambda>(name, temp) m. if temp > m then temp else m) temps 0"

text \<open>
  \<open>GetMinTemperature\<close> starts from the value of the first key that a \<open>range\<close> loop
  yields: the head of the list.
\<close>

definition GetMinTemperature :: "(string \<times> int) list \<Rightarrow> int" where
  "GetMinTemperature temps =
     (if length temps = 0 then 0
      else fold (\<lambda>(name, temp) m. if temp < m then temp else m) temps (snd (hd temps)))"

text \<open>
  The invariant of the outer loop of the bubble sort, used in its proof: from position \<open>k\<close> on, every value is at most every
  value before it.
\<close>

definition descending_from :: "nat \<Rightarrow> int list \<Rightarrow> bool" where
  "descending_from k xs = (\<forall>a b. a < b \<and> k \<le> b \<and> b < length xs \<longrightarrow> xs ! b \<le> xs ! a)"









section \<open>The fan actuator\<close>

text \<open>
  \<open>ipmitool\<close> is a subprocess. The world of the actuator records what the program did
  and fixes what the subprocess answers: \<open>invocations\<close> holds the arguments of every
  invocation so far, oldest first, and \<open>exit_ok k\<close> tells whether the invocation number
  \<open>k\<close> (counted from zero) exits with status zero. The two seconds of sleep between
  attempts are not modelled.
\<close>

record world =
  exit_ok :: "nat \<Rightarrow> bool"
  invocations :: "string list list"

definition exec_ipmitool :: "string list \<Rightarrow> world \<Rightarrow> bool \<times> world" where
  "exec_ipmitool args w =
     (exit_ok w (length (invocations w)), w\<lparr>invocations := invocations w @ [args]\<rparr>)"

datatype ipmi_error = InvalidDuty int | IPMICommandFailed

definition numFans :: nat where
  "numFans = 6"

definition numPadding :: nat where
  "numPadding = 10"

text \<open>
  \<open>fmt.Sprintf("0x%02x", d)\<close>: the digits of \<open>d\<close> in base sixteen, in lower case, padded
  with zeros to a width of two; the sign of a negative number counts in the width.
\<close>

definition hexdigit :: "nat \<Rightarrow> char" where
  "hexdigit d = ''0123456789abcdef'' ! d"

function to_hex :: "nat \<Rightarrow> string" where
  "to_hex n = (if n < 16 then [hexdigit n] else to_hex (n div 16) @ [hexdigit (n mod 16)])"
  by pat_completeness auto
termination
  by (relation "measure (\<lambda>n. n)") auto

declare to_hex.simps [simp del]

definition pad_zeros :: "nat \<Rightarrow> string \<Rightarrow> string" where
  "pad_zeros width digits = replicate (width - length digits) (CHR ''0'') @ digits"

definition Sprintf_0x02x :: "int \<Rightarrow> string" where
  "Sprintf_0x02x d =
     ''0x'' @ (if d < 0 then CHR ''-'' # pad_zeros 1 (to_hex (nat (- d)))
               else pad_zeros 2 (to_hex (nat d)))"

text \<open>The two loops that append the fan bytes and the padding bytes.\<close>

fun append_times :: "nat \<Rightarrow> 'a \<Rightarrow> 'a list \<Rightarrow> 'a list" where
  "append_times 0 x args = args"
| "append_times (Suc n) x args = append_times n x (args @ [x])"

definition encode :: "int \<Rightarrow> string list" where
  "encode dutyPercent =
     (let dutyHex = Sprintf_0x02x dutyPercent;
          args = [''raw'', ''0x3a'', ''0xd6''];
          args = append_times numFans dutyHex args;
          args = append_times numPadding ''0x64'' args
      in args)"

text \<open>The retry loop: \<open>attempt\<close> runs from 1 while \<open>attempt \<le> 3\<close>.\<close>

function retry_loop :: "nat \<Rightarrow> string list \<Rightarrow> world \<Rightarrow> ipmi_error option \<times> world" where
  "retry_loop attempt args w =
     (if attempt \<le> 3
      then (case exec_ipmitool args w of
              (ok, w') \<Rightarrow> if ok then (None, w') else retry_loop (attempt + 1) args w')
      else (Some IPMICommandFailed, w))"
  by pat_completeness auto
termination
  by (relation "measure (\<lambda>(attempt, args, w). 4 - attempt)") auto

declare retry_loop.simps [simp del]

definition SetAllFans :: "int \<Rightarrow> world \<Rightarrow> ipmi_error option \<times> world" where
  "SetAllFans dutyPercent w =
     (if dutyPercent < 0 \<or> dutyPercent > 100 then (Some (InvalidDuty dutyPercent), w)
      else retry_loop 1 (encode dutyPercent) w)"

section \<open>The control loop\<close>

text \<open>
  \<open>checkEmergencyConditions\<close> compares the integer disk temperature with the
  \<open>float64\<close> threshold \<open>MaxHDD\<close>; the integer is read as the number it denotes.
\<close>

definition checkEmergencyConditions :: "real \<Rightarrow> int \<Rightarrow> Config \<Rightarrow> string" where
  "checkEmergencyConditions cpuTemp maxDiskTemp config =
     (if cpuTemp > MaxCPU (Temperature config) then ''cpu_temp''
      else if real_of_int maxDiskTemp > MaxHDD (Temperature config) then ''hdd_temp''
      else '''')"

text \<open>The conversion \<open>int(output)\<close> of a \<open>float64\<close> drops the fraction.\<close>

definition int_of_float64 :: "real \<Rightarrow> int" where
  "int_of_float64 x = (if x \<ge> 0 then \<lfloor>x\<rfloor> else \<lceil>x\<rceil>)"

definition maxIPMIFailures :: int where
  "maxIPMIFailures = 5"

text \<open>
  The state that one iteration of the loop of \<open>runControlLoop\<close> hands to the next, and
  what an iteration passes to \<open>UpdateAllMetrics\<close> (without the fan speeds read back and
  the duration of the iteration, which nothing else depends on).
\<close>

record loop_state =
  pid :: PIDController
  consecutiveIPMIFailures :: int

record tick_report =
  fanDuty :: int
  pidTerms :: PIDTerms
  avgTemp :: float64
  maxTemp :: int
  emergencyReason :: string

datatype tick_outcome = Skipped | Published tick_report

text \<open>
  The choice of the duty (the \<open>if emergencyReason != ""\<close> of the loop body). With a
  reason the controller is not touched. Without one, \<open>Calculate\<close> is called on the
  average; an average that is not a finite number is outside the model of the controller
  over the reals, and the answer is \<open>None\<close>. Such an average needs \<open>WarmestDisks = 0\<close>,
  which \<open>Validate\<close> rejects.
\<close>

definition select_duty ::
  "Config \<Rightarrow> string \<Rightarrow> float64 \<Rightarrow> real \<Rightarrow> PIDController \<Rightarrow> (int \<times> PIDTerms \<times> PIDController) option" where
  "select_duty config reason average now p =
     (if reason \<noteq> ''''
      then Some (100, \<lparr>term_P = 0, term_I = 0, term_D = 0, term_Error = 0\<rparr>, p)
      else (case average of
              Finite a \<Rightarrow>
                (case Calculate p a now of
                   (output, terms, p') \<Rightarrow>
                     (let duty = int_of_float64 output;
                          duty = (if duty < MinDuty (Fans config) then MinDuty (Fans config) else duty);
                          duty = (if duty > MaxDuty (Fans config) then MaxDuty (Fans config) else duty)
                      in Some (duty, terms, p')))
            | _ \<Rightarrow> None))"

text \<open>
  The actuation (the \<open>if !*dryRun\<close> of the loop body): the duty, the reason and the
  failure counter after it, and the world after the calls of \<open>SetAllFans\<close>.
\<close>

definition actuate :: "bool \<Rightarrow> int \<Rightarrow> string \<Rightarrow> int \<Rightarrow> world \<Rightarrow> int \<times> string \<times> int \<times> world" where
  "actuate dryRun duty reason failures w =
     (if \<not> dryRun
      then (case SetAllFans duty w of
              (Some err, w1) \<Rightarrow>
                (let failures' = failures + 1
                 in if failures' \<ge> maxIPMIFailures
                    then (case SetAllFans 100 w1 of (last_result, w2) \<Rightarrow> (100, ''ipmi_failure'', failures', w2))
                    else (duty, reason, failures', w1))
            | (None, w1) \<Rightarrow> (duty, reason, 0, w1))
      else (duty, reason, failures, w))"

text \<open>
  One iteration of the loop. \<open>reading\<close> is the result of \<open>readAllTemperatures\<close> (the disk
  temperatures and the CPU temperature, or an error) and \<open>now\<close> the clock that
  \<open>Calculate\<close> reads. A failed reading skips the rest of the iteration.
\<close>

type_synonym reading = "string + (string \<times> int) list \<times> real"

definition tick ::
  "Config \<Rightarrow> bool \<Rightarrow> reading \<Rightarrow> real \<Rightarrow> loop_state \<Rightarrow> world \<Rightarrow>
   (tick_outcome \<times> loop_state \<times> world) option" where
  "tick config dryRun reading now s w =
     (case reading of
        Inl err \<Rightarrow> Some (Skipped, s, w)
      | Inr (diskTemps, cpuTemp) \<Rightarrow>
          (let average = GetAverageOfWarmest diskTemps (WarmestDisks (Temperature config));
               maxDisk = GetMaxTemperature diskTemps;
               reason = checkEmergencyConditions cpuTemp maxDisk config
           in case select_duty config reason average now (pid s) of
                None \<Rightarrow> None
              | Some (duty, terms, p') \<Rightarrow>
                  (case actuate dryRun duty reason (consecutiveIPMIFailures s) w of
                     (duty', reason', failures', w') \<Rightarrow>
                       Some (Published \<lparr>fanDuty = duty', pidTerms = terms, avgTemp = average,
                                        maxTemp = maxDisk, emergencyReason = reason'\<rparr>,
                             \<lparr>pid = p', consecutiveIPMIFailures = failures'\<rparr>, w'))))"

text \<open>
  The loop never ends by itself; a run is the list of the readings and clock values of
  its first iterations. The counter starts at zero, after the attempt to set the
  startup duty.
\<close>

fun run_ticks ::
  "Config \<Rightarrow> bool \<Rightarrow> (reading \<times> real) list \<Rightarrow> loop_state \<Rightarrow> world \<Rightarrow>
   (tick_outcome list \<times> loop_state \<times> world) option" where
  "run_ticks config dryRun [] s w = Some ([], s, w)"
| "run_ticks config dryRun ((reading, now) # rest) s w =
     (case tick config dryRun reading now s w of
        None \<Rightarrow> None
      | Some (outcome, s', w') \<Rightarrow>
          (case run_ticks config dryRun rest s' w' of
             None \<Rightarrow> None
           | Some (outcomes, s'', w'') \<Rightarrow> Some (outcome # outcomes, s'', w'')))"

definition runControlLoop ::
  "Config \<Rightarrow> bool \<Rightarrow> PIDController \<Rightarrow> (reading \<times> real) list \<Rightarrow> world \<Rightarrow>
   (tick_outcome list \<times> loop_state \<times> world) option" where
  "runControlLoop config dryRun p inputs w =
     (let w0 = (if \<not> dryRun then snd (SetAllFans (StartupDuty (Fans config)) w) else w)
      in run_ticks config dryRun inputs \<lparr>pid = p, consecutiveIPMIFailures = 0\<rparr> w0)"

section \<open>Properties of the PID engine\<close>


lemma Calculate_IntegralMax: "IntegralMax (snd (snd (Calculate p current now))) = IntegralMax p"
  by (simp add: Calculate_def Let_def)


lemma Calculate_seq_IntegralMax: "IntegralMax (Calculate_seq p calls) = IntegralMax p"
  by (induction p calls rule: Calculate_seq.induct) (simp_all add: Calculate_IntegralMax)




lemma Calculate_output_ignores_Ki:
  "fst (Calculate (p\<lparr>Ki := k\<rparr>) current now) = fst (Calculate p current now)"
  by (simp add: Calculate_def Let_def)

text \<open>
  Claim C1. The claim asks for an output \<open>clamp (P + Ki_folded_I + D)\<close> in which the
  integral gain \<open>Ki\<close> weighs the integral term. \<open>Calculate\<close> never reads \<open>Ki\<close>: it adds
  the clamped accumulator itself. With \<open>Kp = 5\<close>, \<open>Kd = 20\<close>, target 38, limits 30 and
  100 and \<open>IntegralMax = 50\<close>, the first call on a sample of 44 returns 36 whatever \<open>Ki\<close>
  is, where both conventions of the specification give 30.6 for the default \<open>Ki = 0.1\<close>.
\<close>

theorem Calculate_output_without_Ki:
  "fst (Calculate (NewPIDController 5 ki 20 38 30 100 50) 44 0) = 36
   \<and> spec_output_Ki_accumulating (NewPIDController 5 0.1 20 38 30 100 50) 44 0 = 30.6
   \<and> spec_output_Ki_weighting (NewPIDController 5 0.1 20 38 30 100 50) 44 0 = 30.6"
  by (simp add: Calculate_def spec_output_Ki_accumulating_def spec_output_Ki_weighting_def
      NewPIDController_def clamp_def Let_def)

section \<open>Properties of the emergency predicate\<close>

text \<open>
  Claim C3. The emergency predicate answers \<open>cpu_temp\<close> when the CPU is above \<open>MaxCPU\<close>,
  whatever the disks say; otherwise \<open>hdd_temp\<close> when the warmest disk is above \<open>MaxHDD\<close>;
  otherwise the empty string. With \<open>MaxCPU = 75\<close> and \<open>MaxHDD = 45\<close> the four examples of
  the specification come out as stated.
\<close>

theorem emergency_predicate:
  "(cpuTemp > MaxCPU (Temperature config) \<longrightarrow>
      checkEmergencyConditions cpuTemp maxDiskTemp config = ''cpu_temp'')
   \<and> (\<not> cpuTemp > MaxCPU (Temperature config) \<and> real_of_int maxDiskTemp > MaxHDD (Temperature config) \<longrightarrow>
      checkEmergencyConditions cpuTemp maxDiskTemp config = ''hdd_temp'')
   \<and> (\<not> cpuTemp > MaxCPU (Temperature config) \<and> \<not> real_of_int maxDiskTemp > MaxHDD (Temperature config) \<longrightarrow>
      checkEmergencyConditions cpuTemp maxDiskTemp config = [])
   \<and> (MaxCPU (Temperature config) = 75 \<and> MaxHDD (Temperature config) = 45 \<longrightarrow>
      checkEmergencyConditions 80.0 40 config = ''cpu_temp''
      \<and> checkEmergencyConditions 60.0 50 config = ''hdd_temp''
      \<and> checkEmergencyConditions 60.0 40 config = []
      \<and> checkEmergencyConditions 80.0 50 config = ''cpu_temp'')"
  by (simp add: checkEmergencyConditions_def)

theorem emergency_predicate_witness:
  "checkEmergencyConditions 80.0 40 (zero_Config\<lparr>Temperature := (Temperature zero_Config)\<lparr>MaxCPU := 75, MaxHDD := 45\<rparr>\<rparr>) = ''cpu_temp''
   \<and> checkEmergencyConditions 60.0 50 (zero_Config\<lparr>Temperature := (Temperature zero_Config)\<lparr>MaxCPU := 75, MaxHDD := 45\<rparr>\<rparr>) = ''hdd_temp''
   \<and> checkEmergencyConditions 60.0 40 (zero_Config\<lparr>Temperature := (Temperature zero_Config)\<lparr>MaxCPU := 75, MaxHDD := 45\<rparr>\<rparr>) = []
   \<and> checkEmergencyConditions 80.0 50 (zero_Config\<lparr>Temperature := (Temperature zero_Config)\<lparr>MaxCPU := 75, MaxHDD := 45\<rparr>\<rparr>) = ''cpu_temp''
   \<and> checkEmergencyConditions 76 50 (zero_Config\<lparr>Temperature := (Temperature zero_Config)\<lparr>MaxCPU := 75, MaxHDD := 45\<rparr>\<rparr>) = ''cpu_temp''
   \<and> checkEmergencyConditions 75 46 (zero_Config\<lparr>Temperature := (Temperature zero_Config)\<lparr>MaxCPU := 75, MaxHDD := 45\<rparr>\<rparr>) = ''hdd_temp''
   \<and> checkEmergencyConditions 75 45 (zero_Config\<lparr>Temperature := (Temperature zero_Config)\<lparr>MaxCPU := 75, MaxHDD := 45\<rparr>\<rparr>) = []"
  using emergency_predicate [where cpuTemp = 76 and maxDiskTemp = 50 and config = "zero_Config\<lparr>Temperature := (Temperature zero_Config)\<lparr>MaxCPU := 75, MaxHDD := 45\<rparr>\<rparr>"]
    emergency_predicate [where cpuTemp = 75 and maxDiskTemp = 46 and config = "zero_Config\<lparr>Temperature := (Temperature zero_Config)\<lparr>MaxCPU := 75, MaxHDD := 45\<rparr>\<rparr>"]
    emergency_predicate [where cpuTemp = 75 and maxDiskTemp = 45 and config = "zero_Config\<lparr>Temperature := (Temperature zero_Config)\<lparr>MaxCPU := 75, MaxHDD := 45\<rparr>\<rparr>"]
  by simp

section \<open>Properties of the configuration\<close>

lemma setDefaults_replaces_zero:
  "(MetricsPort (Server parsed) = 0 \<longrightarrow> MetricsPort (Server (setDefaults parsed)) = 9090)
   \<and> (LogLevel (Server parsed) = [] \<longrightarrow> LogLevel (Server (setDefaults parsed)) = ''info'')
   \<and> (TargetHDD (Temperature parsed) = 0 \<longrightarrow> TargetHDD (Temperature (setDefaults parsed)) = 38.0)
   \<and> (MaxHDD (Temperature parsed) = 0 \<longrightarrow> MaxHDD (Temperature (setDefaults parsed)) = 40.0)
   \<and> (MaxCPU (Temperature parsed) = 0 \<longrightarrow> MaxCPU (Temperature (setDefaults parsed)) = 75.0)
   \<and> (PollInterval (Temperature parsed) = 0 \<longrightarrow>
        PollInterval (Temperature (setDefaults parsed)) = 30000000000)
   \<and> (WarmestDisks (Temperature parsed) = 0 \<longrightarrow> WarmestDisks (Temperature (setDefaults parsed)) = 4)
   \<and> (MinDuty (Fans parsed) = 0 \<longrightarrow> MinDuty (Fans (setDefaults parsed)) = 30)
   \<and> (MaxDuty (Fans parsed) = 0 \<longrightarrow> MaxDuty (Fans (setDefaults parsed)) = 100)
   \<and> (StartupDuty (Fans parsed) = 0 \<longrightarrow> StartupDuty (Fans (setDefaults parsed)) = 50)
   \<and> (cfg_Kp (PID parsed) = 0 \<longrightarrow> cfg_Kp (PID (setDefaults parsed)) = 5.0)
   \<and> (cfg_Ki (PID parsed) = 0 \<longrightarrow> cfg_Ki (PID (setDefaults parsed)) = 0.1)
   \<and> (cfg_Kd (PID parsed) = 0 \<longrightarrow> cfg_Kd (PID (setDefaults parsed)) = 20.0)
   \<and> (cfg_IntegralMax (PID parsed) = 0 \<longrightarrow> cfg_IntegralMax (PID (setDefaults parsed)) = 50.0)
   \<and> (ExcludePatterns (Disks parsed) = [] \<longrightarrow>
        ExcludePatterns (Disks (setDefaults parsed)) = [''^loop'', ''^sr'', ''^zram'', ''^zd'', ''^dm-''])"
  by (simp add: setDefaults_def)

lemma setDefaults_keeps_nonzero:
  "(MetricsPort (Server parsed) \<noteq> 0 \<longrightarrow> MetricsPort (Server (setDefaults parsed)) = MetricsPort (Server parsed))
   \<and> (LogLevel (Server parsed) \<noteq> [] \<longrightarrow> LogLevel (Server (setDefaults parsed)) = LogLevel (Server parsed))
   \<and> (TargetHDD (Temperature parsed) \<noteq> 0 \<longrightarrow>
        TargetHDD (Temperature (setDefaults parsed)) = TargetHDD (Temperature parsed))
   \<and> (MaxHDD (Temperature parsed) \<noteq> 0 \<longrightarrow> MaxHDD (Temperature (setDefaults parsed)) = MaxHDD (Temperature parsed))
   \<and> (MaxCPU (Temperature parsed) \<noteq> 0 \<longrightarrow> MaxCPU (Temperature (setDefaults parsed)) = MaxCPU (Temperature parsed))
   \<and> (PollInterval (Temperature parsed) \<noteq> 0 \<longrightarrow>
        PollInterval (Temperature (setDefaults parsed)) = PollInterval (Temperature parsed))
   \<and> (WarmestDisks (Temperature parsed) \<noteq> 0 \<longrightarrow>
        WarmestDisks (Temperature (setDefaults parsed)) = WarmestDisks (Temperature parsed))
   \<and> (MinDuty (Fans parsed) \<noteq> 0 \<longrightarrow> MinDuty (Fans (setDefaults parsed)) = MinDuty (Fans parsed))
   \<and> (MaxDuty (Fans parsed) \<noteq> 0 \<longrightarrow> MaxDuty (Fans (setDefaults parsed)) = MaxDuty (Fans parsed))
   \<and> (StartupDuty (Fans parsed) \<noteq> 0 \<longrightarrow> StartupDuty (Fans (setDefaults parsed)) = StartupDuty (Fans parsed))
   \<and> (cfg_Kp (PID parsed) \<noteq> 0 \<longrightarrow> cfg_Kp (PID (setDefaults parsed)) = cfg_Kp (PID parsed))
   \<and> (cfg_Ki (PID parsed) \<noteq> 0 \<longrightarrow> cfg_Ki (PID (setDefaults parsed)) = cfg_Ki (PID parsed))
   \<and> (cfg_Kd (PID parsed) \<noteq> 0 \<longrightarrow> cfg_Kd (PID (setDefaults parsed)) = cfg_Kd (PID parsed))
   \<and> (cfg_IntegralMax (PID parsed) \<noteq> 0 \<longrightarrow>
        cfg_IntegralMax (PID (setDefaults parsed)) = cfg_IntegralMax (PID parsed))
   \<and> (ExcludePatterns (Disks parsed) \<noteq> [] \<longrightarrow>
        ExcludePatterns (Disks (setDefaults parsed)) = ExcludePatterns (Disks parsed))"
  by (simp add: setDefaults_def)

lemma setDefaults_nonzero:
  "MetricsPort (Server (setDefaults parsed)) \<noteq> 0
   \<and> LogLevel (Server (setDefaults parsed)) \<noteq> []
   \<and> TargetHDD (Temperature (setDefaults parsed)) \<noteq> 0
   \<and> MaxHDD (Temperature (setDefaults parsed)) \<noteq> 0
   \<and> MaxCPU (Temperature (setDefaults parsed)) \<noteq> 0
   \<and> PollInterval (Temperature (setDefaults parsed)) \<noteq> 0
   \<and> WarmestDisks (Temperature (setDefaults parsed)) \<noteq> 0
   \<and> MinDuty (Fans (setDefaults parsed)) \<noteq> 0
   \<and> MaxDuty (Fans (setDefaults parsed)) \<noteq> 0
   \<and> StartupDuty (Fans (setDefaults parsed)) \<noteq> 0
   \<and> cfg_Kp (PID (setDefaults parsed)) \<noteq> 0
   \<and> cfg_Ki (PID (setDefaults parsed)) \<noteq> 0
   \<and> cfg_Kd (PID (setDefaults parsed)) \<noteq> 0
   \<and> cfg_IntegralMax (PID (setDefaults parsed)) \<noteq> 0
   \<and> ExcludePatterns (Disks (setDefaults parsed)) \<noteq> []"
  by (simp add: setDefaults_def)

lemma LoadConfig_Inr:
  "LoadConfig readFile unmarshal path = Inr config \<longleftrightarrow>
     (\<exists>data parsed. readFile path = Some data \<and> unmarshal data = Some parsed
        \<and> config = setDefaults parsed \<and> Validate (setDefaults parsed) = None)"
  by (auto simp add: LoadConfig_def Let_def split: option.splits)

lemma Validate_accepts_zero_MinDuty_and_Kp:
  "Validate ((setDefaults zero_Config)
      \<lparr>Fans := \<lparr>MinDuty = 0, MaxDuty = 100, StartupDuty = 50\<rparr>,
       PID := \<lparr>cfg_Kp = 0, cfg_Ki = 0.1, cfg_Kd = 20.0, cfg_IntegralMax = 50.0\<rparr>\<rparr>) = None"
  by (simp add: Validate_def setDefaults_def zero_Config_def)

text \<open>
  Claim C10. A configuration that \<open>LoadConfig\<close> returns is \<open>setDefaults\<close> of what was
  parsed, and it is the result of \<open>setDefaults\<close> that \<open>Validate\<close> accepted. Every field
  parsed as zero has its default there (\<open>MinDuty\<close> 30, \<open>MaxHDD\<close> 40, \<open>Kp\<close> 5, the five
  default patterns, and so on for all fifteen fields), so the returned configuration has
  neither \<open>MinDuty = 0\<close> nor \<open>Kp = 0\<close>, although \<open>Validate\<close> accepts a configuration with
  both: a zero written in the file gives the same result as an absent field.
\<close>

theorem LoadConfig_defaults_before_Validate:
  "LoadConfig readFile unmarshal path = Inr config \<Longrightarrow>
   (\<exists>data parsed. readFile path = Some data \<and> unmarshal data = Some parsed
      \<and> config = setDefaults parsed \<and> Validate (setDefaults parsed) = None
      \<and> (MetricsPort (Server parsed) = 0 \<longrightarrow> MetricsPort (Server config) = 9090)
      \<and> (LogLevel (Server parsed) = [] \<longrightarrow> LogLevel (Server config) = ''info'')
      \<and> (TargetHDD (Temperature parsed) = 0 \<longrightarrow> TargetHDD (Temperature config) = 38.0)
      \<and> (MaxHDD (Temperature parsed) = 0 \<longrightarrow> MaxHDD (Temperature config) = 40.0)
      \<and> (MaxCPU (Temperature parsed) = 0 \<longrightarrow> MaxCPU (Temperature config) = 75.0)
      \<and> (PollInterval (Temperature parsed) = 0 \<longrightarrow> PollInterval (Temperature config) = 30000000000)
      \<and> (WarmestDisks (Temperature parsed) = 0 \<longrightarrow> WarmestDisks (Temperature config) = 4)
      \<and> (MinDuty (Fans parsed) = 0 \<longrightarrow> MinDuty (Fans config) = 30)
      \<and> (MaxDuty (Fans parsed) = 0 \<longrightarrow> MaxDuty (Fans config) = 100)
      \<and> (StartupDuty (Fans parsed) = 0 \<longrightarrow> StartupDuty (Fans config) = 50)
      \<and> (cfg_Kp (PID parsed) = 0 \<longrightarrow> cfg_Kp (PID config) = 5.0)
      \<and> (cfg_Ki (PID parsed) = 0 \<longrightarrow> cfg_Ki (PID config) = 0.1)
      \<and> (cfg_Kd (PID parsed) = 0 \<longrightarrow> cfg_Kd (PID config) = 20.0)
      \<and> (cfg_IntegralMax (PID parsed) = 0 \<longrightarrow> cfg_IntegralMax (PID config) = 50.0)
      \<and> (ExcludePatterns (Disks parsed) = [] \<longrightarrow>
           ExcludePatterns (Disks config) = [''^loop'', ''^sr'', ''^zram'', ''^zd'', ''^dm-'']))
   \<and> MinDuty (Fans config) \<noteq> 0 \<and> cfg_Kp (PID config) \<noteq> 0
   \<and> (\<exists>c. Validate c = None \<and> MinDuty (Fans c) = 0 \<and> cfg_Kp (PID c) = 0)"
proof -
  assume "LoadConfig readFile unmarshal path = Inr config"
  then obtain data parsed where
    src: "readFile path = Some data" "unmarshal data = Some parsed"
    and cfg: "config = setDefaults parsed" and ok: "Validate (setDefaults parsed) = None"
    unfolding LoadConfig_Inr by blast
  have first: "\<exists>data parsed. readFile path = Some data \<and> unmarshal data = Some parsed
      \<and> config = setDefaults parsed \<and> Validate (setDefaults parsed) = None
      \<and> (MetricsPort (Server parsed) = 0 \<longrightarrow> MetricsPort (Server config) = 9090)
      \<and> (LogLevel (Server parsed) = [] \<longrightarrow> LogLevel (Server config) = ''info'')
      \<and> (TargetHDD (Temperature parsed) = 0 \<longrightarrow> TargetHDD (Temperature config) = 38.0)
      \<and> (MaxHDD (Temperature parsed) = 0 \<longrightarrow> MaxHDD (Temperature config) = 40.0)
      \<and> (MaxCPU (Temperature parsed) = 0 \<longrightarrow> MaxCPU (Temperature config) = 75.0)
      \<and> (PollInterval (Temperature parsed) = 0 \<longrightarrow> PollInterval (Temperature config) = 30000000000)
      \<and> (WarmestDisks (Temperature parsed) = 0 \<longrightarrow> WarmestDisks (Temperature config) = 4)
      \<and> (MinDuty (Fans parsed) = 0 \<longrightarrow> MinDuty (Fans config) = 30)
      \<and> (MaxDuty (Fans parsed) = 0 \<longrightarrow> MaxDuty (Fans config) = 100)
      \<and> (StartupDuty (Fans parsed) = 0 \<longrightarrow> StartupDuty (Fans config) = 50)
      \<and> (cfg_Kp (PID parsed) = 0 \<longrightarrow> cfg_Kp (PID config) = 5.0)
      \<and> (cfg_Ki (PID parsed) = 0 \<longrightarrow> cfg_Ki (PID config) = 0.1)
      \<and> (cfg_Kd (PID parsed) = 0 \<longrightarrow> cfg_Kd (PID config) = 20.0)
      \<and> (cfg_IntegralMax (PID parsed) = 0 \<longrightarrow> cfg_IntegralMax (PID config) = 50.0)
      \<and> (ExcludePatterns (Disks parsed) = [] \<longrightarrow>
           ExcludePatterns (Disks config) = [''^loop'', ''^sr'', ''^zram'', ''^zd'', ''^dm-''])"
    unfolding cfg
    by (rule exI [of _ data], rule exI [of _ parsed])
      (use src ok setDefaults_replaces_zero [of parsed] in simp)
  have second: "MinDuty (Fans config) \<noteq> 0" and third: "cfg_Kp (PID config) \<noteq> 0"
    using cfg setDefaults_nonzero [of parsed] by simp_all
  have fourth: "\<exists>c. Validate c = None \<and> MinDuty (Fans c) = 0 \<and> cfg_Kp (PID c) = 0"
    using Validate_accepts_zero_MinDuty_and_Kp
    by (intro exI [of _ "(setDefaults zero_Config)
      \<lparr>Fans := \<lparr>MinDuty = 0, MaxDuty = 100, StartupDuty = 50\<rparr>,
       PID := \<lparr>cfg_Kp = 0, cfg_Ki = 0.1, cfg_Kd = 20.0, cfg_IntegralMax = 50.0\<rparr>\<rparr>"]) simp
  show ?thesis
    by (rule conjI [OF first conjI [OF second conjI [OF third fourth]]])
qed

theorem LoadConfig_defaults_before_Validate_witness:
  "LoadConfig (\<lambda>path. Some ''fans: {min_duty: 0}'')
      (\<lambda>data. Some (zero_Config\<lparr>Temperature := (Temperature zero_Config)\<lparr>MaxCPU := 80\<rparr>\<rparr>))
      ''/config/config.yaml''
     = Inr (setDefaults (zero_Config\<lparr>Temperature := (Temperature zero_Config)\<lparr>MaxCPU := 80\<rparr>\<rparr>))
   \<and> MinDuty (Fans (setDefaults (zero_Config\<lparr>Temperature := (Temperature zero_Config)\<lparr>MaxCPU := 80\<rparr>\<rparr>))) = 30
   \<and> cfg_Kp (PID (setDefaults (zero_Config\<lparr>Temperature := (Temperature zero_Config)\<lparr>MaxCPU := 80\<rparr>\<rparr>))) = 5
   \<and> MinDuty (Fans (setDefaults (zero_Config\<lparr>Temperature := (Temperature zero_Config)\<lparr>MaxCPU := 80\<rparr>\<rparr>))) \<noteq> 0
   \<and> cfg_Kp (PID (setDefaults (zero_Config\<lparr>Temperature := (Temperature zero_Config)\<lparr>MaxCPU := 80\<rparr>\<rparr>))) \<noteq> 0"
proof -
  let ?parsed = "zero_Config\<lparr>Temperature := (Temperature zero_Config)\<lparr>MaxCPU := 80\<rparr>\<rparr>"
  have loaded: "LoadConfig (\<lambda>path. Some ''fans: {min_duty: 0}'') (\<lambda>data. Some ?parsed) ''/config/config.yaml''
      = Inr (setDefaults ?parsed)"
    by (simp add: LoadConfig_def Let_def Validate_def setDefaults_def zero_Config_def)
  have zero: "MinDuty (Fans ?parsed) = 0" "cfg_Kp (PID ?parsed) = 0"
    by (simp_all add: zero_Config_def)
  show ?thesis
    using loaded zero LoadConfig_defaults_before_Validate [OF loaded] by simp
qed

section \<open>Properties of the fan actuator\<close>

lemma append_times_replicate: "append_times n x args = args @ replicate n x"
  by (induction n arbitrary: args) (simp_all add: replicate_append_same)

lemma replicate_6: "replicate 6 x = [x, x, x, x, x, x]"
  by (simp add: numeral_eq_Suc)

lemma replicate_10: "replicate 10 x = [x, x, x, x, x, x, x, x, x, x]"
  by (simp add: numeral_eq_Suc)

lemma hexdigit_lowercase: "n < 16 \<Longrightarrow> hexdigit n \<in> set ''0123456789abcdef''"
  unfolding hexdigit_def by (rule nth_mem) simp

lemma to_hex_byte:
  "n < 256 \<Longrightarrow> to_hex n = (if n < 16 then [hexdigit n] else [hexdigit (n div 16), hexdigit (n mod 16)])"
proof -
  assume "n < 256"
  then have "n div 16 < 16" by simp
  then have "to_hex (n div 16) = [hexdigit (n div 16)]"
    by (subst to_hex.simps) simp
  then show ?thesis
    by (subst to_hex.simps) simp
qed

lemma Sprintf_0x02x_byte:
  "0 \<le> d \<Longrightarrow> d \<le> 255 \<Longrightarrow> Sprintf_0x02x d = ''0x'' @ [hexdigit (nat d div 16), hexdigit (nat d mod 16)]"
proof -
  assume "0 \<le> d" and "d \<le> 255"
  then have small: "nat d < 256" by simp
  have zero: "hexdigit 0 = CHR ''0''" by (simp add: hexdigit_def)
  show ?thesis
  proof (cases "nat d < 16")
    case True
    then show ?thesis
      using \<open>0 \<le> d\<close> zero by (simp add: Sprintf_0x02x_def to_hex_byte [OF small] pad_zeros_def)
  next
    case False
    then show ?thesis
      using \<open>0 \<le> d\<close> by (simp add: Sprintf_0x02x_def to_hex_byte [OF small] pad_zeros_def)
  qed
qed

lemma encode_byte:
  "0 \<le> d \<Longrightarrow> d \<le> 255 \<Longrightarrow>
   encode d = [''raw'', ''0x3a'', ''0xd6'']
              @ replicate 6 (''0x'' @ [hexdigit (nat d div 16), hexdigit (nat d mod 16)])
              @ replicate 10 ''0x64''"
  by (simp add: encode_def Let_def append_times_replicate numFans_def numPadding_def
      Sprintf_0x02x_byte)

text \<open>
  What a call of \<open>SetAllFans\<close> with a valid duty does: up to three invocations with the
  same arguments, stopping at the first that exits with status zero.
\<close>

lemma retry_loop_from_1:
  "retry_loop (Suc 0) args w =
     (if exit_ok w (length (invocations w))
      then (None, w\<lparr>invocations := invocations w @ [args]\<rparr>)
      else if exit_ok w (length (invocations w) + 1)
      then (None, w\<lparr>invocations := invocations w @ [args, args]\<rparr>)
      else if exit_ok w (length (invocations w) + 2)
      then (None, w\<lparr>invocations := invocations w @ [args, args, args]\<rparr>)
      else (Some IPMICommandFailed, w\<lparr>invocations := invocations w @ [args, args, args]\<rparr>))"
proof -
  have four: "retry_loop (Suc (Suc (Suc (Suc 0)))) args v = (Some IPMICommandFailed, v)" for v
    by (subst retry_loop.simps) simp
  have three: "retry_loop (Suc (Suc (Suc 0))) args v =
      (if exit_ok v (length (invocations v)) then (None, v\<lparr>invocations := invocations v @ [args]\<rparr>)
       else (Some IPMICommandFailed, v\<lparr>invocations := invocations v @ [args]\<rparr>))" for v
    by (subst retry_loop.simps) (simp add: exec_ipmitool_def four)
  have two: "retry_loop (Suc (Suc 0)) args v =
      (if exit_ok v (length (invocations v)) then (None, v\<lparr>invocations := invocations v @ [args]\<rparr>)
       else retry_loop (Suc (Suc (Suc 0))) args (v\<lparr>invocations := invocations v @ [args]\<rparr>))" for v
    by (subst retry_loop.simps) (simp add: exec_ipmitool_def)
  have one: "retry_loop (Suc 0) args v =
      (if exit_ok v (length (invocations v)) then (None, v\<lparr>invocations := invocations v @ [args]\<rparr>)
       else retry_loop (Suc (Suc 0)) args (v\<lparr>invocations := invocations v @ [args]\<rparr>))" for v
    by (subst retry_loop.simps) (simp add: exec_ipmitool_def)
  show ?thesis
    by (simp add: one two three)
qed

lemma SetAllFans_valid:
  "0 \<le> d \<Longrightarrow> d \<le> 100 \<Longrightarrow>
   SetAllFans d w =
     (if exit_ok w (length (invocations w))
      then (None, w\<lparr>invocations := invocations w @ [encode d]\<rparr>)
      else if exit_ok w (length (invocations w) + 1)
      then (None, w\<lparr>invocations := invocations w @ [encode d, encode d]\<rparr>)
      else if exit_ok w (length (invocations w) + 2)
      then (None, w\<lparr>invocations := invocations w @ [encode d, encode d, encode d]\<rparr>)
      else (Some IPMICommandFailed, w\<lparr>invocations := invocations w @ [encode d, encode d, encode d]\<rparr>))"
  by (simp add: SetAllFans_def retry_loop_from_1)

lemma SetAllFans_invocations:
  "0 \<le> d \<Longrightarrow> d \<le> 100 \<Longrightarrow>
   \<exists>k. 1 \<le> k \<and> k \<le> 3 \<and> invocations (snd (SetAllFans d w)) = invocations w @ replicate k (encode d)"
proof -
  assume d: "0 \<le> d" "d \<le> 100"
  let ?n = "length (invocations w)"
  show ?thesis
  proof (cases "exit_ok w ?n")
    case True
    then show ?thesis
      by (intro exI [of _ 1]) (simp add: SetAllFans_valid [OF d])
  next
    case first: False
    show ?thesis
    proof (cases "exit_ok w (?n + 1)")
      case True
      with first show ?thesis
        by (intro exI [of _ 2]) (simp add: SetAllFans_valid [OF d] numeral_2_eq_2)
    next
      case False
      with first show ?thesis
        by (intro exI [of _ 3]) (simp add: SetAllFans_valid [OF d] numeral_3_eq_3)
    qed
  qed
qed

lemma SetAllFans_invalid:
  "d < 0 \<or> d > 100 \<Longrightarrow> SetAllFans d w = (Some (InvalidDuty d), w)"
  by (auto simp add: SetAllFans_def)

text \<open>
  Claim C6. For a duty between 0 and 100, \<open>SetAllFans\<close> invokes the subprocess (once,
  twice or three times) with \<open>raw 0x3a 0xd6\<close>, then six times the duty as \<open>0x\<close> and two
  lower-case hexadecimal digits (the sixteens and the units of the duty), then ten times
  \<open>0x64\<close>; for 50 these are the nineteen words of the specification. For any other duty
  it fails with the invalid-duty error and the world is unchanged: nothing was invoked.
\<close>

theorem SetAllFans_encoding:
  "(0 \<le> duty \<and> duty \<le> 100 \<longrightarrow>
      encode duty = [''raw'', ''0x3a'', ''0xd6'']
                    @ replicate 6 (''0x'' @ [hexdigit (nat duty div 16), hexdigit (nat duty mod 16)])
                    @ replicate 10 ''0x64''
      \<and> hexdigit (nat duty div 16) \<in> set ''0123456789abcdef''
      \<and> hexdigit (nat duty mod 16) \<in> set ''0123456789abcdef''
      \<and> (\<exists>k. 1 \<le> k \<and> k \<le> 3
            \<and> invocations (snd (SetAllFans duty w)) = invocations w @ replicate k (encode duty)))
   \<and> encode 50 = [''raw'', ''0x3a'', ''0xd6'', ''0x32'', ''0x32'', ''0x32'', ''0x32'', ''0x32'', ''0x32'',
                   ''0x64'', ''0x64'', ''0x64'', ''0x64'', ''0x64'', ''0x64'', ''0x64'', ''0x64'', ''0x64'', ''0x64'']
   \<and> (duty < 0 \<or> duty > 100 \<longrightarrow> SetAllFans duty w = (Some (InvalidDuty duty), w))"
proof -
  have valid: "encode duty = [''raw'', ''0x3a'', ''0xd6'']
                    @ replicate 6 (''0x'' @ [hexdigit (nat duty div 16), hexdigit (nat duty mod 16)])
                    @ replicate 10 ''0x64''
      \<and> hexdigit (nat duty div 16) \<in> set ''0123456789abcdef''
      \<and> hexdigit (nat duty mod 16) \<in> set ''0123456789abcdef''
      \<and> (\<exists>k. 1 \<le> k \<and> k \<le> 3
            \<and> invocations (snd (SetAllFans duty w)) = invocations w @ replicate k (encode duty))"
    if d: "0 \<le> duty \<and> duty \<le> 100"
  proof -
    have "nat duty < 256" using d by linarith
    then have "nat duty div 16 < 16" by simp
    then have hi: "hexdigit (nat duty div 16) \<in> set ''0123456789abcdef''"
      by (rule hexdigit_lowercase)
    have lo: "hexdigit (nat duty mod 16) \<in> set ''0123456789abcdef''"
      by (rule hexdigit_lowercase) simp
    have enc: "encode duty = [''raw'', ''0x3a'', ''0xd6'']
                    @ replicate 6 (''0x'' @ [hexdigit (nat duty div 16), hexdigit (nat duty mod 16)])
                    @ replicate 10 ''0x64''"
      using d by (intro encode_byte) simp_all
    have inv: "\<exists>k. 1 \<le> k \<and> k \<le> 3
            \<and> invocations (snd (SetAllFans duty w)) = invocations w @ replicate k (encode duty)"
      using d by (intro SetAllFans_invocations) simp_all
    show ?thesis
      by (rule conjI [OF enc conjI [OF hi conjI [OF lo inv]]])
  qed
  have fifty: "encode 50 = [''raw'', ''0x3a'', ''0xd6'', ''0x32'', ''0x32'', ''0x32'', ''0x32'', ''0x32'', ''0x32'',
                   ''0x64'', ''0x64'', ''0x64'', ''0x64'', ''0x64'', ''0x64'', ''0x64'', ''0x64'', ''0x64'', ''0x64'']"
    using encode_byte [of 50]
    by (simp add: hexdigit_def replicate_6 replicate_10)
  have invalid: "duty < 0 \<or> duty > 100 \<longrightarrow> SetAllFans duty w = (Some (InvalidDuty duty), w)"
    using SetAllFans_invalid [of duty w] by blast
  show ?thesis
    using valid fifty invalid by blast
qed

theorem SetAllFans_encoding_witness:
  "encode 100 = [''raw'', ''0x3a'', ''0xd6'', ''0x64'', ''0x64'', ''0x64'', ''0x64'', ''0x64'', ''0x64'',
                 ''0x64'', ''0x64'', ''0x64'', ''0x64'', ''0x64'', ''0x64'', ''0x64'', ''0x64'', ''0x64'', ''0x64'']
   \<and> invocations (snd (SetAllFans 100 \<lparr>exit_ok = (\<lambda>k. k = 1), invocations = []\<rparr>))
       = [encode 100, encode 100]
   \<and> SetAllFans 101 \<lparr>exit_ok = (\<lambda>k. True), invocations = []\<rparr>
       = (Some (InvalidDuty 101), \<lparr>exit_ok = (\<lambda>k. True), invocations = []\<rparr>)
   \<and> SetAllFans (- 1) \<lparr>exit_ok = (\<lambda>k. True), invocations = []\<rparr>
       = (Some (InvalidDuty (- 1)), \<lparr>exit_ok = (\<lambda>k. True), invocations = []\<rparr>)"
  using SetAllFans_encoding [of 100 "\<lparr>exit_ok = (\<lambda>k. k = 1), invocations = []\<rparr>"]
    SetAllFans_encoding [of 101 "\<lparr>exit_ok = (\<lambda>k. True), invocations = []\<rparr>"]
    SetAllFans_encoding [of "- 1" "\<lparr>exit_ok = (\<lambda>k. True), invocations = []\<rparr>"]
  by (simp add: hexdigit_def replicate_6 replicate_10 SetAllFans_valid)

section \<open>Properties of the temperature aggregates\<close>

lemma bubble_inner_length: "length (bubble_inner len xs i j) = length xs"
proof (induction len xs i j rule: bubble_inner.induct)
  case (1 len tempSlice i j)
  show ?case
  proof (cases "int j < int len - int i - 1")
    case True
    then show ?thesis
      using "1.IH" by (subst bubble_inner.simps) simp
  next
    case False
    then show ?thesis
      by (subst bubble_inner.simps) simp
  qed
qed

lemma bubble_inner_set: "len \<le> length xs \<Longrightarrow> set (bubble_inner len xs i j) = set xs"
proof (induction len xs i j rule: bubble_inner.induct)
  case (1 len tempSlice i j)
  show ?case
  proof (cases "int j < int len - int i - 1")
    case True
    then have in_range: "j < length tempSlice" "j + 1 < length tempSlice"
      using "1.prems" by linarith+
    let ?swapped = "tempSlice[j := tempSlice ! (j + 1), j + 1 := tempSlice ! j]"
    have swap: "set ?swapped = set tempSlice"
      using in_range by (simp add: set_swap)
    let ?next = "if tempSlice ! j < tempSlice ! (j + 1) then ?swapped else tempSlice"
    have "len \<le> length ?next" using "1.prems" by simp
    then have "set (bubble_inner len ?next i (j + 1)) = set ?next"
      using "1.IH" [OF True] by simp
    also have "set ?next = set tempSlice"
      using swap by simp
    finally show ?thesis
      using True by (subst bubble_inner.simps) simp
  next
    case False
    then show ?thesis
      by (subst bubble_inner.simps) simp
  qed
qed

lemma bubble_outer_length_set:
  "len \<le> length xs \<Longrightarrow>
   length (bubble_outer len xs i) = length xs \<and> set (bubble_outer len xs i) = set xs"
proof (induction len xs i rule: bubble_outer.induct)
  case (1 len tempSlice i)
  show ?case
  proof (cases "int i < int len - 1")
    case True
    let ?pass = "bubble_inner len tempSlice i 0"
    have pass: "length ?pass = length tempSlice" "set ?pass = set tempSlice"
      using "1.prems" by (simp_all add: bubble_inner_length bubble_inner_set)
    then have "length (bubble_outer len ?pass (i + 1)) = length ?pass
        \<and> set (bubble_outer len ?pass (i + 1)) = set ?pass"
      using "1.IH" [OF True] "1.prems" by simp
    moreover have "bubble_outer len tempSlice i = bubble_outer len ?pass (i + 1)"
      using True by (subst bubble_outer.simps) simp
    ultimately show ?thesis
      using pass by simp
  next
    case False
    then have "bubble_outer len tempSlice i = tempSlice"
      by (subst bubble_outer.simps) simp
    then show ?thesis by simp
  qed
qed

lemma sum_loop_not_entered: "take_n \<le> 0 \<Longrightarrow> sum_loop xs take_n 0 acc = acc"
  by (subst sum_loop.simps) simp



text \<open>
  The maximum and the minimum do not depend on the order in which the map is traversed:
  they are the largest of 0 and the values, and the smallest of the values.
\<close>

lemma fold_max_Max:
  "fold (\<lambda>(name, temp) m. if temp > m then temp else m) temps (m::int) = Max (insert m (snd ` set temps))"
proof (induction temps arbitrary: m)
  case Nil
  then show ?case by simp
next
  case (Cons entry temps)
  obtain name temp where entry: "entry = (name, temp)" by (cases entry)
  have fin: "finite (snd ` set temps)" by simp
  have "(if temp > m then temp else m) = max m temp" by (simp add: max_def)
  moreover have "Max (insert (max m temp) (snd ` set temps)) = Max (insert m (insert temp (snd ` set temps)))"
  proof (cases "snd ` set temps = {}")
    case True
    then show ?thesis by simp
  next
    case False
    then show ?thesis
      using fin by (simp add: Max_insert max.assoc)
  qed
  ultimately show ?case
    unfolding entry using Cons.IH [of "max m temp"] by simp
qed

lemma fold_min_Min:
  "fold (\<lambda>(name, temp) m. if temp < m then temp else m) temps (m::int) = Min (insert m (snd ` set temps))"
proof (induction temps arbitrary: m)
  case Nil
  then show ?case by simp
next
  case (Cons entry temps)
  obtain name temp where entry: "entry = (name, temp)" by (cases entry)
  have fin: "finite (snd ` set temps)" by simp
  have "(if temp < m then temp else m) = min m temp" by (simp add: min_def)
  moreover have "Min (insert (min m temp) (snd ` set temps)) = Min (insert m (insert temp (snd ` set temps)))"
  proof (cases "snd ` set temps = {}")
    case True
    then show ?thesis by simp
  next
    case False
    then show ?thesis
      using fin by (simp add: Min_insert min.assoc)
  qed
  ultimately show ?case
    unfolding entry using Cons.IH [of "min m temp"] by simp
qed

lemma GetMaxTemperature_Max: "GetMaxTemperature temps = Max (insert 0 (snd ` set temps))"
  by (simp add: GetMaxTemperature_def fold_max_Max)

lemma GetMinTemperature_Min: "temps \<noteq> [] \<Longrightarrow> GetMinTemperature temps = Min (snd ` set temps)"
proof -
  assume nonempty: "temps \<noteq> []"
  let ?f = "\<lambda>(name, temp) m. if temp < m then temp else (m::int)"
  have "GetMinTemperature temps = fold ?f temps (snd (hd temps))"
    using nonempty by (simp add: GetMinTemperature_def)
  also have "\<dots> = Min (insert (snd (hd temps)) (snd ` set temps))"
    by (rule fold_min_Min)
  also have "insert (snd (hd temps)) (snd ` set temps) = snd ` set temps"
    using nonempty by (cases temps) auto
  finally show ?thesis .
qed



text \<open>
  The bubble sort does sort: its result is the values in descending order, so the
  average is that of the \<open>n\<close> largest values and does not depend on the order in which
  the map was traversed.
\<close>

lemma bubble_inner_mset: "len \<le> length xs \<Longrightarrow> mset (bubble_inner len xs i j) = mset xs"
proof (induction len xs i j rule: bubble_inner.induct)
  case (1 len tempSlice i j)
  show ?case
  proof (cases "int j < int len - int i - 1")
    case True
    then have in_range: "j < length tempSlice" "j + 1 < length tempSlice"
      using "1.prems" by linarith+
    let ?swapped = "tempSlice[j := tempSlice ! (j + 1), j + 1 := tempSlice ! j]"
    have swap: "mset ?swapped = mset tempSlice"
      using in_range by (simp add: mset_swap)
    let ?next = "if tempSlice ! j < tempSlice ! (j + 1) then ?swapped else tempSlice"
    have "len \<le> length ?next" using "1.prems" by simp
    then have "mset (bubble_inner len ?next i (j + 1)) = mset ?next"
      using "1.IH" [OF True] by simp
    also have "mset ?next = mset tempSlice"
      using swap by simp
    finally show ?thesis
      using True by (subst bubble_inner.simps) simp
  next
    case False
    then show ?thesis
      by (subst bubble_inner.simps) simp
  qed
qed

text \<open>
  One pass of the inner loop over the positions up to \<open>m = len - i - 1\<close>: if the value at
  \<open>j\<close> is the least of the positions up to \<open>j\<close>, then afterwards the value at \<open>m\<close> is
  the least of the positions up to \<open>m\<close>, and the positions after \<open>m\<close> are untouched.
\<close>

lemma bubble_inner_least:
  assumes "len \<le> length xs" and "i < len" and "j \<le> len - i - 1"
    and "\<forall>k \<le> j. xs ! j \<le> xs ! k"
  shows "(\<forall>k \<le> len - i - 1. bubble_inner len xs i j ! (len - i - 1) \<le> bubble_inner len xs i j ! k)
         \<and> (\<forall>k > len - i - 1. bubble_inner len xs i j ! k = xs ! k)"
  using assms
proof (induction len xs i j rule: bubble_inner.induct)
  case (1 len tempSlice i j)
  let ?m = "len - i - 1"
  show ?case
  proof (cases "int j < int len - int i - 1")
    case True
    then have j: "j < ?m" by linarith
    then have in_range: "j < length tempSlice" "j + 1 < length tempSlice"
      using "1.prems"(1) by linarith+
    let ?swapped = "tempSlice[j := tempSlice ! (j + 1), j + 1 := tempSlice ! j]"
    let ?next = "if tempSlice ! j < tempSlice ! (j + 1) then ?swapped else tempSlice"
    have len: "len \<le> length ?next" using "1.prems"(1) by simp
    have least: "\<forall>k \<le> j + 1. ?next ! (j + 1) \<le> ?next ! k"
    proof (intro allI impI)
      fix k assume k: "k \<le> j + 1"
      show "?next ! (j + 1) \<le> ?next ! k"
      proof (cases "tempSlice ! j < tempSlice ! (j + 1)")
        case True
        have at: "?swapped ! (j + 1) = tempSlice ! j"
          using in_range by simp
        have "tempSlice ! j \<le> ?swapped ! k"
        proof (cases "k = j + 1")
          case True
          then show ?thesis using at by simp
        next
          case False
          then have "k \<le> j" using k by simp
          show ?thesis
          proof (cases "k = j")
            case True
            then have "?swapped ! k = tempSlice ! (j + 1)"
              using in_range by simp
            then show ?thesis
              using \<open>tempSlice ! j < tempSlice ! (j + 1)\<close> by simp
          next
            case False
            then have "?swapped ! k = tempSlice ! k"
              using \<open>k \<le> j\<close> by simp
            then show ?thesis
              using "1.prems"(4) \<open>k \<le> j\<close> by simp
          qed
        qed
        then show ?thesis
          using True at by simp
      next
        case False
        then have step: "tempSlice ! (j + 1) \<le> tempSlice ! j" by simp
        have "tempSlice ! (j + 1) \<le> tempSlice ! k"
        proof (cases "k = j + 1")
          case True
          then show ?thesis by simp
        next
          case False
          then have "k \<le> j" using k by simp
          then have "tempSlice ! j \<le> tempSlice ! k" using "1.prems"(4) by simp
          then show ?thesis using step by simp
        qed
        then show ?thesis
          using False by simp
      qed
    qed
    have rec: "(\<forall>k \<le> ?m. bubble_inner len ?next i (j + 1) ! ?m \<le> bubble_inner len ?next i (j + 1) ! k)
         \<and> (\<forall>k > ?m. bubble_inner len ?next i (j + 1) ! k = ?next ! k)"
      using "1.IH" [OF True len "1.prems"(2) _ least] j by simp
    have untouched: "\<forall>k > ?m. ?next ! k = tempSlice ! k"
      using j by simp
    have unfold: "bubble_inner len tempSlice i j = bubble_inner len ?next i (j + 1)"
      using True by (subst bubble_inner.simps) simp
    show ?thesis
      unfolding unfold using rec untouched by simp
  next
    case False
    then have "j = ?m" using "1.prems"(3) by linarith
    moreover have "bubble_inner len tempSlice i j = tempSlice"
      using False by (subst bubble_inner.simps) simp
    ultimately show ?thesis
      using "1.prems"(4) by simp
  qed
qed

lemma bubble_inner_pass:
  assumes len: "len = length xs" and i: "i < len" and inv: "descending_from (len - i) xs"
  shows "descending_from (len - i - 1) (bubble_inner len xs i 0)"
proof -
  let ?m = "len - i - 1"
  let ?ys = "bubble_inner len xs i 0"
  have least: "\<forall>k \<le> ?m. ?ys ! ?m \<le> ?ys ! k" and rest: "\<forall>k > ?m. ?ys ! k = xs ! k"
    using bubble_inner_least [of len xs i 0] len i by simp_all
  have length: "length ?ys = length xs"
    by (rule bubble_inner_length)
  have same: "mset ?ys = mset xs"
    using len by (simp add: bubble_inner_mset)
  have tail: "drop (?m + 1) ?ys = drop (?m + 1) xs"
    using rest length by (intro nth_equalityI) simp_all
  have "mset (take (?m + 1) ?ys) + mset (drop (?m + 1) ?ys) = mset (take (?m + 1) xs) + mset (drop (?m + 1) xs)"
    using same by (simp only: union_code append_take_drop_id)
  then have front: "mset (take (?m + 1) ?ys) = mset (take (?m + 1) xs)"
    unfolding tail by simp
  show ?thesis
    unfolding descending_from_def
  proof (intro allI impI)
    fix a b assume ab: "a < b \<and> ?m \<le> b \<and> b < length ?ys"
    show "?ys ! b \<le> ?ys ! a"
    proof (cases "b = ?m")
      case True
      then show ?thesis using least ab by simp
    next
      case False
      then have b: "?m < b" "len - i \<le> b" "b < length xs"
        using ab length i by linarith+
      then have yb: "?ys ! b = xs ! b" using rest by simp
      show ?thesis
      proof (cases "a \<le> ?m")
        case True
        then have "?ys ! a \<in> set (take (?m + 1) ?ys)"
          using length i len by (auto simp add: in_set_conv_nth intro!: exI [of _ a])
        then have "?ys ! a \<in> set (take (?m + 1) xs)"
          using front by (metis set_mset_mset)
        then obtain a' where "a' < ?m + 1" "a' < length xs" "xs ! a' = ?ys ! a"
          by (auto simp add: in_set_conv_nth)
        moreover have "a' < b" using \<open>a' < ?m + 1\<close> b(1) by simp
        ultimately show ?thesis
          using inv b yb unfolding descending_from_def by metis
      next
        case False
        then have "?ys ! a = xs ! a" using rest by simp
        then show ?thesis
          using inv b yb ab unfolding descending_from_def by simp
      qed
    qed
  qed
qed

lemma bubble_outer_descending:
  assumes "len = length xs" and "i \<le> len - 1" and "descending_from (len - i) xs"
  shows "descending_from 1 (bubble_outer len xs i) \<and> mset (bubble_outer len xs i) = mset xs"
  using assms
proof (induction len xs i rule: bubble_outer.induct)
  case (1 len tempSlice i)
  show ?case
  proof (cases "int i < int len - 1")
    case True
    let ?pass = "bubble_inner len tempSlice i 0"
    have i: "i < len" "i + 1 \<le> len - 1" using True by linarith+
    have length: "len = length ?pass"
      using "1.prems"(1) by (simp add: bubble_inner_length)
    have same: "mset ?pass = mset tempSlice"
      using "1.prems"(1) by (simp add: bubble_inner_mset)
    have "descending_from (len - i - 1) ?pass"
      using "1.prems"(1) i(1) "1.prems"(3) by (rule bubble_inner_pass)
    then have "descending_from (len - (i + 1)) ?pass" by simp
    then have "descending_from 1 (bubble_outer len ?pass (i + 1))
        \<and> mset (bubble_outer len ?pass (i + 1)) = mset ?pass"
      using "1.IH" [OF True length i(2)] by simp
    moreover have "bubble_outer len tempSlice i = bubble_outer len ?pass (i + 1)"
      using True by (subst bubble_outer.simps) simp
    ultimately show ?thesis
      using same by simp
  next
    case False
    then have stop: "bubble_outer len tempSlice i = tempSlice"
      by (subst bubble_outer.simps) simp
    have "len - i \<le> 1" using False by linarith
    then have "descending_from 1 tempSlice"
      using "1.prems"(3) unfolding descending_from_def by (meson le_trans)
    then show ?thesis
      using stop by simp
  qed
qed

lemma bubble_sort_descending:
  "bubble_outer (length xs) xs 0 = rev (sort xs)"
proof -
  let ?zs = "bubble_outer (length xs) xs 0"
  have "descending_from (length xs - 0) xs"
    by (simp add: descending_from_def)
  then have desc: "descending_from 1 ?zs" and same: "mset ?zs = mset xs"
    using bubble_outer_descending [of "length xs" xs 0] by simp_all
  have "\<forall>a b. a \<le> b \<longrightarrow> b < length ?zs \<longrightarrow> ?zs ! b \<le> ?zs ! a"
  proof (intro allI impI)
    fix a b assume "a \<le> b" and "b < length ?zs"
    then show "?zs ! b \<le> ?zs ! a"
      using desc unfolding descending_from_def by (cases "a = b") auto
  qed
  then have "sorted (rev ?zs)"
    by (simp add: sorted_rev_iff_nth_mono)
  moreover have "mset (rev ?zs) = mset xs"
    using same by simp
  ultimately have "sort xs = rev ?zs"
    by (intro properties_for_sort) simp_all
  then show ?thesis by simp
qed


lemma wrap64_add: "wrap64 (wrap64 a + b) = wrap64 (a + b)"
proof -
  have "wrap64 (wrap64 a + b) = ((a + 2 ^ 63) mod 2 ^ 64 + b) mod 2 ^ 64 - 2 ^ 63"
    by (simp add: wrap64_def)
  also have "((a + 2 ^ 63) mod 2 ^ 64 + b) mod 2 ^ 64 = (a + 2 ^ 63 + b) mod 2 ^ 64"
    by (rule mod_add_left_eq)
  also have "a + 2 ^ 63 + b = a + b + 2 ^ 63"
    by simp
  finally show ?thesis
    by (simp add: wrap64_def)
qed

lemma wrap64_wrap64: "wrap64 (wrap64 a) = wrap64 a"
  using wrap64_add [of a 0] by simp

text \<open>
  The summing loop computes the sum of the first \<open>take\<close> values, wrapped to 64 bits: the
  intermediate wraps do not matter.
\<close>

lemma sum_loop_sum_list:
  "nat take_n \<le> length xs \<Longrightarrow> wrap64 acc = acc \<Longrightarrow>
   sum_loop xs take_n i acc = wrap64 (acc + sum_list (drop i (take (nat take_n) xs)))"
proof (induction xs take_n i acc rule: sum_loop.induct)
  case (1 tempSlice take_n i acc)
  show ?case
  proof (cases "int i < take_n")
    case True
    then have i: "i < nat take_n" by linarith
    let ?acc = "wrap64 (acc + tempSlice ! i)"
    let ?rest = "sum_list (drop (i + 1) (take (nat take_n) tempSlice))"
    have split: "drop i (take (nat take_n) tempSlice)
        = tempSlice ! i # drop (i + 1) (take (nat take_n) tempSlice)"
      using i "1.prems"(1) by (simp add: Cons_nth_drop_Suc [symmetric])
    have "sum_loop tempSlice take_n i acc = sum_loop tempSlice take_n (i + 1) ?acc"
      using True by (subst sum_loop.simps) simp
    also have "\<dots> = wrap64 (?acc + ?rest)"
      using "1.IH" [OF True "1.prems"(1)] by (simp add: wrap64_wrap64)
    also have "\<dots> = wrap64 (acc + tempSlice ! i + ?rest)"
      by (rule wrap64_add)
    finally show ?thesis
      unfolding split by (simp add: add.assoc)
  next
    case False
    then have "drop i (take (nat take_n) tempSlice) = []" by simp
    moreover have "sum_loop tempSlice take_n i acc = acc"
      using False by (subst sum_loop.simps) simp
    ultimately show ?thesis
      using "1.prems"(2) by simp
  qed
qed

lemma sum_list_between:
  "\<forall>x \<in> set xs. lo \<le> x \<and> x \<le> hi \<Longrightarrow>
   int (length xs) * lo \<le> sum_list xs \<and> sum_list xs \<le> int (length xs) * (hi::int)"
  by (induction xs) (auto simp add: algebra_simps)

text \<open>
  The value of the average for a map that is not empty and \<open>n \<ge> 1\<close>: the sum of the
  \<open>min n len\<close> largest values, wrapped to 64 bits, divided by their number.
\<close>

lemma GetAverageOfWarmest_mean_of_largest:
  assumes "temps \<noteq> []" and "1 \<le> n"
  shows "GetAverageOfWarmest temps n =
           Finite (real_of_int (wrap64 (sum_list (take (min (nat n) (length temps))
                                                   (rev (sort (map snd temps))))))
                   / real (min (nat n) (length temps)))"
proof -
  let ?sorted = "rev (sort (map snd temps))"
  let ?take = "if int (length ?sorted) < n then int (length ?sorted) else n"
  have sorted: "bubble_outer (length (map snd temps)) (map snd temps) 0 = ?sorted"
    by (rule bubble_sort_descending)
  have k: "nat ?take = min (nat n) (length temps)" "real_of_int ?take = real (min (nat n) (length temps))"
    using assms(2) by (auto simp add: min_def)
  have le: "nat ?take \<le> length ?sorted"
    unfolding k by simp
  have pos: "real_of_int ?take \<noteq> 0"
    using assms by (cases temps) auto
  have zero: "wrap64 0 = 0"
    by (simp add: wrap64_def)
  have "GetAverageOfWarmest temps n
      = float64_div (real_of_int (sum_loop ?sorted ?take 0 0)) (real_of_int ?take)"
    using assms(1) unfolding GetAverageOfWarmest_def Let_def sorted by simp
  also have "\<dots> = Finite (real_of_int (sum_loop ?sorted ?take 0 0) / real_of_int ?take)"
    using pos unfolding float64_div_def by (rule if_P)
  also have "sum_loop ?sorted ?take 0 0 = wrap64 (sum_list (take (nat ?take) ?sorted))"
    using sum_loop_sum_list [OF le zero, of 0] by simp
  finally show ?thesis
    unfolding k .
qed


text \<open>
  The sum stays in range whenever the values are bounded by some \<open>b\<close> and the map has
  fewer than \<open>2 ^ 63 / b\<close> entries, as temperatures in degrees Celsius are.
\<close>

lemma sum_of_largest_in_range:
  assumes "\<forall>x \<in> set temps. \<bar>snd x\<bar> \<le> b" and "int (length temps) * b < 2 ^ 63"
  shows "- (2 ^ 63) \<le> sum_list (take k (rev (sort (map snd temps))))
         \<and> sum_list (take k (rev (sort (map snd temps)))) < 2 ^ 63"
proof (cases "temps = []")
  case True
  then show ?thesis by simp
next
  case False
  then obtain x where "x \<in> set temps" by (cases temps) auto
  then have b: "0 \<le> b" using assms(1) by fastforce
  let ?largest = "take k (rev (sort (map snd temps)))"
  have "set ?largest \<subseteq> set (rev (sort (map snd temps)))"
    by (rule set_take_subset)
  then have "set ?largest \<subseteq> snd ` set temps"
    by simp
  then have within: "\<forall>x \<in> set ?largest. - b \<le> x \<and> x \<le> b"
    using assms(1) by fastforce
  have sum: "int (length ?largest) * (- b) \<le> sum_list ?largest" "sum_list ?largest \<le> int (length ?largest) * b"
    using sum_list_between [OF within] by simp_all
  have "int (length ?largest) \<le> int (length temps)"
    by simp
  then have "int (length ?largest) * b \<le> int (length temps) * b"
    using b by (rule mult_right_mono)
  then show ?thesis
    using sum assms(2) by simp
qed




lemma GetAverageOfWarmest_nonpositive:
  assumes "temps \<noteq> []" and "n \<le> 0"
  shows "GetAverageOfWarmest temps n = (if n = 0 then NaN else Finite 0)"
proof -
  let ?slice = "map snd temps"
  let ?sorted = "bubble_outer (length ?slice) ?slice 0"
  have "\<not> int (length ?sorted) < n"
    using assms(2) by simp
  then have "GetAverageOfWarmest temps n
      = float64_div (real_of_int (sum_loop ?sorted n 0 0)) (real_of_int n)"
    using assms(1) by (simp add: GetAverageOfWarmest_def Let_def)
  also have "sum_loop ?sorted n 0 0 = 0"
    using assms(2) by (rule sum_loop_not_entered)
  finally show ?thesis
    by (simp add: float64_div_def)
qed

text \<open>
  Claim C8. The claim asks for 0.0 whenever \<open>n \<le> 0\<close>. With one disk at 35 degrees and
  \<open>n = 0\<close> the function takes no element, sums nothing and divides 0 by 0: the result is
  \<open>NaN\<close>. The empty map is caught by the test on its length, and a negative \<open>n\<close> divides 0
  by \<open>n\<close>, which is zero.
\<close>

theorem GetAverageOfWarmest_zero_n:
  "GetAverageOfWarmest [(''sda'', 35)] 0 = NaN
   \<and> GetAverageOfWarmest [(''sda'', 35)] (- 1) = Finite 0
   \<and> GetAverageOfWarmest [] 0 = Finite 0"
  using GetAverageOfWarmest_nonpositive [of "[(''sda'', 35)]" 0]
    GetAverageOfWarmest_nonpositive [of "[(''sda'', 35)]" "- 1"]
  by (simp add: GetAverageOfWarmest_def)

section \<open>Properties of disk discovery\<close>










section \<open>Properties of the control loop\<close>

lemma GetAverageOfWarmest_finite:
  "n \<noteq> 0 \<Longrightarrow> \<exists>a. GetAverageOfWarmest temps n = Finite a"
proof -
  assume n: "n \<noteq> 0"
  consider (empty) "temps = []" | (positive) "temps \<noteq> []" "1 \<le> n" | (negative) "temps \<noteq> []" "n \<le> 0"
    by linarith
  then show ?thesis
  proof cases
    case empty
    then show ?thesis by (simp add: GetAverageOfWarmest_def)
  next
    case positive
    then show ?thesis using GetAverageOfWarmest_mean_of_largest [of temps n] by blast
  next
    case negative
    then show ?thesis using n GetAverageOfWarmest_nonpositive [of temps n] by simp
  qed
qed

text \<open>
  The model of an iteration is total on every configuration with \<open>WarmestDisks \<noteq> 0\<close>,
  hence on every configuration that \<open>Validate\<close> accepts.
\<close>

lemma select_duty_defined:
  "reason \<noteq> [] \<or> (\<exists>a. average = Finite a) \<Longrightarrow> \<exists>r. select_duty config reason average now p = Some r"
proof (cases "reason \<noteq> []")
  case True
  then show ?thesis by (simp add: select_duty_def)
next
  case False
  assume "reason \<noteq> [] \<or> (\<exists>a. average = Finite a)"
  then obtain a where "average = Finite a" using False by blast
  moreover obtain out terms p' where "Calculate p a now = (out, terms, p')"
    by (cases "Calculate p a now")
  ultimately show ?thesis
    using False by (simp add: select_duty_def Let_def)
qed

lemma tick_Inr:
  "tick config dryRun (Inr (diskTemps, cpuTemp)) now s w =
     (case select_duty config (checkEmergencyConditions cpuTemp (GetMaxTemperature diskTemps) config)
             (GetAverageOfWarmest diskTemps (WarmestDisks (Temperature config))) now (pid s) of
        None \<Rightarrow> None
      | Some (duty, terms, p') \<Rightarrow>
          (case actuate dryRun duty (checkEmergencyConditions cpuTemp (GetMaxTemperature diskTemps) config)
                  (consecutiveIPMIFailures s) w of
             (duty', reason', failures', w') \<Rightarrow>
               Some (Published \<lparr>fanDuty = duty', pidTerms = terms,
                                avgTemp = GetAverageOfWarmest diskTemps (WarmestDisks (Temperature config)),
                                maxTemp = GetMaxTemperature diskTemps, emergencyReason = reason'\<rparr>,
                     \<lparr>pid = p', consecutiveIPMIFailures = failures'\<rparr>, w')))"
  by (simp add: tick_def Let_def)

lemma tick_defined:
  "WarmestDisks (Temperature config) \<noteq> 0 \<Longrightarrow> \<exists>r. tick config dryRun reading now s w = Some r"
proof (cases reading)
  case (Inl err)
  then show ?thesis by (simp add: tick_def)
next
  case (Inr temps)
  assume n: "WarmestDisks (Temperature config) \<noteq> 0"
  obtain diskTemps cpuTemp where temps: "temps = (diskTemps, cpuTemp)" by (cases temps)
  let ?reason = "checkEmergencyConditions cpuTemp (GetMaxTemperature diskTemps) config"
  let ?average = "GetAverageOfWarmest diskTemps (WarmestDisks (Temperature config))"
  have "\<exists>a. ?average = Finite a"
    using n by (rule GetAverageOfWarmest_finite)
  then have "\<exists>r. select_duty config ?reason ?average now (pid s) = Some r"
    by (intro select_duty_defined disjI2)
  then obtain r where sel: "select_duty config ?reason ?average now (pid s) = Some r" ..
  obtain duty terms p' where r: "r = (duty, terms, p')" by (cases r)
  obtain duty' reason' failures' w' where
    act: "actuate dryRun duty ?reason (consecutiveIPMIFailures s) w = (duty', reason', failures', w')"
    by (cases "actuate dryRun duty ?reason (consecutiveIPMIFailures s) w")
  have "tick config dryRun (Inr (diskTemps, cpuTemp)) now s w =
      Some (Published \<lparr>fanDuty = duty', pidTerms = terms, avgTemp = ?average,
                       maxTemp = GetMaxTemperature diskTemps, emergencyReason = reason'\<rparr>,
            \<lparr>pid = p', consecutiveIPMIFailures = failures'\<rparr>, w')"
    by (simp add: tick_Inr sel r act)
  then show ?thesis
    unfolding Inr temps by (rule exI)
qed

lemma actuate_dry_run: "actuate True duty reason failures w = (duty, reason, failures, w)"
  by (simp add: actuate_def)

lemma tick_skipped: "tick config dryRun (Inl err) now s w = Some (Skipped, s, w)"
  by (simp add: tick_def)

lemma tick_dry_run:
  "tick config True reading now s w = Some (outcome, s', w') \<Longrightarrow>
     consecutiveIPMIFailures s' = consecutiveIPMIFailures s \<and> w' = w"
proof (cases reading)
  case (Inl err)
  assume "tick config True reading now s w = Some (outcome, s', w')"
  then show ?thesis
    unfolding Inl tick_skipped by simp
next
  case (Inr temps)
  assume step: "tick config True reading now s w = Some (outcome, s', w')"
  obtain diskTemps cpuTemp where temps: "temps = (diskTemps, cpuTemp)" by (cases temps)
  let ?sel = "select_duty config (checkEmergencyConditions cpuTemp (GetMaxTemperature diskTemps) config)
      (GetAverageOfWarmest diskTemps (WarmestDisks (Temperature config))) now (pid s)"
  show ?thesis
  proof (cases ?sel)
    case None
    then show ?thesis
      using step unfolding Inr temps tick_Inr by simp
  next
    case (Some r)
    obtain duty terms p' where "r = (duty, terms, p')" by (cases r)
    then show ?thesis
      using step Some unfolding Inr temps tick_Inr by (auto simp add: actuate_dry_run)
  qed
qed

lemma actuate_cases:
  "actuate False duty reason failures w =
     (case SetAllFans duty w of
        (None, w1) \<Rightarrow> (duty, reason, 0, w1)
      | (Some err, w1) \<Rightarrow>
          if failures + 1 \<ge> 5 then (100, ''ipmi_failure'', failures + 1, snd (SetAllFans 100 w1))
          else (duty, reason, failures + 1, w1))"
  by (simp add: actuate_def Let_def maxIPMIFailures_def split: prod.splits option.splits)

text \<open>
  Claim C4. In an iteration that reaches the actuation (temperatures read, no dry run),
  let \<open>duty\<close> be the duty that was selected. If \<open>SetAllFans duty\<close> succeeds the failure
  counter is zero afterwards. If it fails the counter is one more than before; when it
  is then 5 or more, the reason published is \<open>ipmi_failure\<close>, the duty published is 100
  and \<open>SetAllFans 100\<close> is called once more, on the world the failed call left, with at
  least one invocation of the subprocess; its result changes neither the report nor the
  state. Below the threshold the selected duty and reason are published.
\<close>

theorem ipmi_failure_counter:
  "tick config False (Inr (diskTemps, cpuTemp)) now s w = Some (outcome, s', w') \<Longrightarrow>
   \<exists>duty terms p' report.
     select_duty config (checkEmergencyConditions cpuTemp (GetMaxTemperature diskTemps) config)
       (GetAverageOfWarmest diskTemps (WarmestDisks (Temperature config))) now (pid s)
       = Some (duty, terms, p')
     \<and> outcome = Published report \<and> pid s' = p' \<and> pidTerms report = terms
     \<and> (fst (SetAllFans duty w) = None \<longrightarrow>
          consecutiveIPMIFailures s' = 0
          \<and> fanDuty report = duty
          \<and> emergencyReason report = checkEmergencyConditions cpuTemp (GetMaxTemperature diskTemps) config
          \<and> w' = snd (SetAllFans duty w))
     \<and> (fst (SetAllFans duty w) \<noteq> None \<longrightarrow>
          consecutiveIPMIFailures s' = consecutiveIPMIFailures s + 1
          \<and> (consecutiveIPMIFailures s' \<ge> 5 \<longrightarrow>
               emergencyReason report = ''ipmi_failure''
               \<and> fanDuty report = 100
               \<and> w' = snd (SetAllFans 100 (snd (SetAllFans duty w)))
               \<and> (\<exists>k. 1 \<le> k \<and> k \<le> 3
                     \<and> invocations w' = invocations (snd (SetAllFans duty w)) @ replicate k (encode 100)))
          \<and> (consecutiveIPMIFailures s' < 5 \<longrightarrow>
               fanDuty report = duty
               \<and> emergencyReason report = checkEmergencyConditions cpuTemp (GetMaxTemperature diskTemps) config
               \<and> w' = snd (SetAllFans duty w)))"
proof -
  assume step: "tick config False (Inr (diskTemps, cpuTemp)) now s w = Some (outcome, s', w')"
  let ?reason = "checkEmergencyConditions cpuTemp (GetMaxTemperature diskTemps) config"
  let ?average = "GetAverageOfWarmest diskTemps (WarmestDisks (Temperature config))"
  let ?sel = "select_duty config ?reason ?average now (pid s)"
  note unfolded = tick_Inr [of config False diskTemps cpuTemp now s w]
  obtain duty terms p' where sel: "?sel = Some (duty, terms, p')"
  proof (cases ?sel)
    case None
    then show ?thesis using step unfolded by simp
  next
    case (Some r)
    then show ?thesis using that by (cases r) simp
  qed
  obtain duty' reason' failures' w'' where
    act: "actuate False duty ?reason (consecutiveIPMIFailures s) w = (duty', reason', failures', w'')"
    by (cases "actuate False duty ?reason (consecutiveIPMIFailures s) w")
  let ?report = "\<lparr>fanDuty = duty', pidTerms = terms, avgTemp = ?average,
                 maxTemp = GetMaxTemperature diskTemps, emergencyReason = reason'\<rparr>"
  have "Some (outcome, s', w') = Some (Published ?report, \<lparr>pid = p', consecutiveIPMIFailures = failures'\<rparr>, w'')"
    using step by (simp add: unfolded sel act)
  then have out: "outcome = Published ?report"
    and st: "s' = \<lparr>pid = p', consecutiveIPMIFailures = failures'\<rparr>"
    and wo: "w'' = w'"
    by simp_all
  obtain result w1 where first: "SetAllFans duty w = (result, w1)"
    by (cases "SetAllFans duty w")
  have more: "\<exists>k. 1 \<le> k \<and> k \<le> 3
      \<and> invocations (snd (SetAllFans 100 w1)) = invocations w1 @ replicate k (encode 100)"
    by (rule SetAllFans_invocations) simp_all
  have acted: "(duty', reason', failures', w') =
      (case result of
         None \<Rightarrow> (duty, ?reason, 0, w1)
       | Some err \<Rightarrow>
           if consecutiveIPMIFailures s + 1 \<ge> 5
           then (100, ''ipmi_failure'', consecutiveIPMIFailures s + 1, snd (SetAllFans 100 w1))
           else (duty, ?reason, consecutiveIPMIFailures s + 1, w1))"
    using act unfolding actuate_cases first wo by simp
  have success: "consecutiveIPMIFailures s' = 0 \<and> fanDuty ?report = duty
      \<and> emergencyReason ?report = ?reason \<and> w' = snd (SetAllFans duty w)"
    if ok: "fst (SetAllFans duty w) = None"
  proof -
    have "result = None" using ok first by simp
    then show ?thesis using acted first st by simp
  qed
  have failure: "consecutiveIPMIFailures s' = consecutiveIPMIFailures s + 1
      \<and> (consecutiveIPMIFailures s' \<ge> 5 \<longrightarrow>
           emergencyReason ?report = ''ipmi_failure'' \<and> fanDuty ?report = 100
           \<and> w' = snd (SetAllFans 100 (snd (SetAllFans duty w)))
           \<and> (\<exists>k. 1 \<le> k \<and> k \<le> 3
                 \<and> invocations w' = invocations (snd (SetAllFans duty w)) @ replicate k (encode 100)))
      \<and> (consecutiveIPMIFailures s' < 5 \<longrightarrow>
           fanDuty ?report = duty \<and> emergencyReason ?report = ?reason \<and> w' = snd (SetAllFans duty w))"
    if failed: "fst (SetAllFans duty w) \<noteq> None"
  proof -
    obtain err where err: "result = Some err"
      using failed first by (cases result) simp_all
    show ?thesis
    proof (cases "consecutiveIPMIFailures s + 1 \<ge> 5")
      case True
      then have "(duty', reason', failures', w') =
          (100, ''ipmi_failure'', consecutiveIPMIFailures s + 1, snd (SetAllFans 100 w1))"
        using acted err by simp
      then show ?thesis
        using True first st more by simp
    next
      case False
      then have "(duty', reason', failures', w') = (duty, ?reason, consecutiveIPMIFailures s + 1, w1)"
        using acted err by simp
      then show ?thesis
        using False first st by simp
    qed
  qed
  have fields: "pid s' = p'" "pidTerms ?report = terms"
    using st by simp_all
  have body: "?sel = Some (duty, terms, p')
     \<and> outcome = Published ?report \<and> pid s' = p' \<and> pidTerms ?report = terms
     \<and> (fst (SetAllFans duty w) = None \<longrightarrow>
          consecutiveIPMIFailures s' = 0
          \<and> fanDuty ?report = duty
          \<and> emergencyReason ?report = ?reason
          \<and> w' = snd (SetAllFans duty w))
     \<and> (fst (SetAllFans duty w) \<noteq> None \<longrightarrow>
          consecutiveIPMIFailures s' = consecutiveIPMIFailures s + 1
          \<and> (consecutiveIPMIFailures s' \<ge> 5 \<longrightarrow>
               emergencyReason ?report = ''ipmi_failure''
               \<and> fanDuty ?report = 100
               \<and> w' = snd (SetAllFans 100 (snd (SetAllFans duty w)))
               \<and> (\<exists>k. 1 \<le> k \<and> k \<le> 3
                     \<and> invocations w' = invocations (snd (SetAllFans duty w)) @ replicate k (encode 100)))
          \<and> (consecutiveIPMIFailures s' < 5 \<longrightarrow>
               fanDuty ?report = duty
               \<and> emergencyReason ?report = ?reason
               \<and> w' = snd (SetAllFans duty w)))"
    by (intro conjI; (rule sel out fields | (rule impI, erule success) | (rule impI, erule failure)))
  show ?thesis
    by (rule exI [of _ duty], rule exI [of _ terms], rule exI [of _ p'], rule exI [of _ ?report])
      (rule body)
qed

theorem ipmi_failure_counter_witness:
  "tick (setDefaults zero_Config) False (Inr ([(''sda'', 39)], 60)) 0
      \<lparr>pid = NewPIDController 5 0.1 20 38 30 100 50, consecutiveIPMIFailures = 4\<rparr>
      \<lparr>exit_ok = (\<lambda>k. False), invocations = []\<rparr>
     = Some (Published \<lparr>fanDuty = 100,
                        pidTerms = \<lparr>term_P = 5, term_I = 1, term_D = 0, term_Error = 1\<rparr>,
                        avgTemp = Finite 39, maxTemp = 39, emergencyReason = ''ipmi_failure''\<rparr>,
             \<lparr>pid = (NewPIDController 5 0.1 20 38 30 100 50)
                      \<lparr>Integral := 1, PrevError := 1, PrevTime := 0, FirstRun := False\<rparr>,
              consecutiveIPMIFailures = 5\<rparr>,
             \<lparr>exit_ok = (\<lambda>k. False),
              invocations = [encode 30, encode 30, encode 30, encode 100, encode 100, encode 100]\<rparr>)
   \<and> fst (SetAllFans 30 \<lparr>exit_ok = (\<lambda>k. False), invocations = []\<rparr>) = Some IPMICommandFailed
   \<and> tick (setDefaults zero_Config) False (Inr ([(''sda'', 39)], 60)) 0
        \<lparr>pid = NewPIDController 5 0.1 20 38 30 100 50, consecutiveIPMIFailures = 4\<rparr>
        \<lparr>exit_ok = (\<lambda>k. 0 < k), invocations = []\<rparr>
       = Some (Published \<lparr>fanDuty = 30,
                          pidTerms = \<lparr>term_P = 5, term_I = 1, term_D = 0, term_Error = 1\<rparr>,
                          avgTemp = Finite 39, maxTemp = 39, emergencyReason = []\<rparr>,
               \<lparr>pid = (NewPIDController 5 0.1 20 38 30 100 50)
                        \<lparr>Integral := 1, PrevError := 1, PrevTime := 0, FirstRun := False\<rparr>,
                consecutiveIPMIFailures = 0\<rparr>,
               \<lparr>exit_ok = (\<lambda>k. 0 < k), invocations = [encode 30, encode 30]\<rparr>)
   \<and> fst (SetAllFans 30 \<lparr>exit_ok = (\<lambda>k. 0 < k), invocations = []\<rparr>) = None
   \<and> select_duty (setDefaults zero_Config) [] (Finite 39) 0 (NewPIDController 5 0.1 20 38 30 100 50)
       = Some (30, \<lparr>term_P = 5, term_I = 1, term_D = 0, term_Error = 1\<rparr>,
               (NewPIDController 5 0.1 20 38 30 100 50)
                 \<lparr>Integral := 1, PrevError := 1, PrevTime := 0, FirstRun := False\<rparr>)"
proof -
  let ?config = "setDefaults zero_Config"
  let ?p = "NewPIDController 5 0.1 20 38 30 100 50"
  let ?w = "\<lparr>exit_ok = (\<lambda>k. False), invocations = []\<rparr>"
  have sorted: "bubble_outer (length (map snd [(''sda'', 39)])) (map snd [(''sda'', 39)]) 0 = [39]"
    by code_simp
  have total: "sum_loop [39] 1 0 0 = 39"
    by code_simp
  have average: "GetAverageOfWarmest [(''sda'', 39)] (WarmestDisks (Temperature ?config)) = Finite 39"
    unfolding GetAverageOfWarmest_def Let_def sorted
    by (simp add: total float64_div_def setDefaults_def zero_Config_def)
  have highest: "GetMaxTemperature [(''sda'', 39)] = 39"
    by (simp add: GetMaxTemperature_def)
  have reason: "checkEmergencyConditions 60 39 ?config = []"
    by (simp add: checkEmergencyConditions_def setDefaults_def zero_Config_def)
  have selected: "select_duty ?config [] (Finite 39) 0 ?p
      = Some (30, \<lparr>term_P = 5, term_I = 1, term_D = 0, term_Error = 1\<rparr>,
              ?p\<lparr>Integral := 1, PrevError := 1, PrevTime := 0, FirstRun := False\<rparr>)"
    by (simp add: select_duty_def Calculate_def NewPIDController_def clamp_def Let_def
        int_of_float64_def setDefaults_def zero_Config_def)
  have failed: "SetAllFans 30 ?w
      = (Some IPMICommandFailed, \<lparr>exit_ok = (\<lambda>k. False), invocations = [encode 30, encode 30, encode 30]\<rparr>)"
    by (simp add: SetAllFans_valid)
  have again: "SetAllFans 100 \<lparr>exit_ok = (\<lambda>k. False), invocations = [encode 30, encode 30, encode 30]\<rparr>
      = (Some IPMICommandFailed,
         \<lparr>exit_ok = (\<lambda>k. False),
          invocations = [encode 30, encode 30, encode 30, encode 100, encode 100, encode 100]\<rparr>)"
    by (simp add: SetAllFans_valid)
  have step: "tick ?config False (Inr ([(''sda'', 39)], 60)) 0 \<lparr>pid = ?p, consecutiveIPMIFailures = 4\<rparr> ?w
     = Some (Published \<lparr>fanDuty = 100,
                        pidTerms = \<lparr>term_P = 5, term_I = 1, term_D = 0, term_Error = 1\<rparr>,
                        avgTemp = Finite 39, maxTemp = 39, emergencyReason = ''ipmi_failure''\<rparr>,
             \<lparr>pid = ?p\<lparr>Integral := 1, PrevError := 1, PrevTime := 0, FirstRun := False\<rparr>,
              consecutiveIPMIFailures = 5\<rparr>,
             \<lparr>exit_ok = (\<lambda>k. False),
              invocations = [encode 30, encode 30, encode 30, encode 100, encode 100, encode 100]\<rparr>)"
    by (simp add: tick_Inr average highest reason selected actuate_cases failed again)
  have succeeded: "SetAllFans 30 \<lparr>exit_ok = (\<lambda>k. 0 < k), invocations = []\<rparr>
      = (None, \<lparr>exit_ok = (\<lambda>k. 0 < k), invocations = [encode 30, encode 30]\<rparr>)"
    by (simp add: SetAllFans_valid)
  have step': "tick ?config False (Inr ([(''sda'', 39)], 60)) 0 \<lparr>pid = ?p, consecutiveIPMIFailures = 4\<rparr>
        \<lparr>exit_ok = (\<lambda>k. 0 < k), invocations = []\<rparr>
     = Some (Published \<lparr>fanDuty = 30,
                        pidTerms = \<lparr>term_P = 5, term_I = 1, term_D = 0, term_Error = 1\<rparr>,
                        avgTemp = Finite 39, maxTemp = 39, emergencyReason = []\<rparr>,
             \<lparr>pid = ?p\<lparr>Integral := 1, PrevError := 1, PrevTime := 0, FirstRun := False\<rparr>,
              consecutiveIPMIFailures = 0\<rparr>,
             \<lparr>exit_ok = (\<lambda>k. 0 < k), invocations = [encode 30, encode 30]\<rparr>)"
    by (simp add: tick_Inr average highest reason selected actuate_cases succeeded)
  show ?thesis
    using ipmi_failure_counter [OF step] ipmi_failure_counter [OF step'] step step' failed succeeded selected
    by simp
qed

lemma actuate_emergency:
  assumes "reason \<noteq> []"
  shows "\<exists>reason' failures' w'.
           actuate dryRun 100 reason failures w = (100, reason', failures', w')
           \<and> reason' \<noteq> []
           \<and> (\<exists>k. k \<le> 6 \<and> invocations w' = invocations w @ replicate k (encode 100))"
proof (cases dryRun)
  case True
  then have "actuate dryRun 100 reason failures w = (100, reason, failures, w)"
    by (simp add: actuate_dry_run)
  moreover have "0 \<le> (6::nat) \<and> invocations w = invocations w @ replicate 0 (encode 100)"
    by simp
  ultimately show ?thesis
    using assms by blast
next
  case wet: False
  obtain result w1 where first: "SetAllFans 100 w = (result, w1)"
    by (cases "SetAllFans 100 w")
  obtain k1 where k1: "k1 \<le> 3" "invocations w1 = invocations w @ replicate k1 (encode 100)"
    using SetAllFans_invocations [of 100 w] first by auto
  obtain k2 where k2: "k2 \<le> 3"
    "invocations (snd (SetAllFans 100 w1)) = invocations w1 @ replicate k2 (encode 100)"
    using SetAllFans_invocations [of 100 w1] by auto
  have both: "k1 + k2 \<le> 6
      \<and> invocations (snd (SetAllFans 100 w1)) = invocations w @ replicate (k1 + k2) (encode 100)"
    using k1 k2 by (simp add: replicate_add)
  have one: "k1 \<le> 6 \<and> invocations w1 = invocations w @ replicate k1 (encode 100)"
    using k1 by simp
  show ?thesis
  proof (cases result)
    case None
    then have "actuate dryRun 100 reason failures w = (100, reason, 0, w1)"
      using wet by (simp add: actuate_cases first)
    then show ?thesis
      using assms one by blast
  next
    case (Some err)
    show ?thesis
    proof (cases "failures + 1 \<ge> 5")
      case True
      then have "actuate dryRun 100 reason failures w
          = (100, ''ipmi_failure'', failures + 1, snd (SetAllFans 100 w1))"
        using wet Some by (simp add: actuate_cases first)
      moreover have "''ipmi_failure'' \<noteq> []" by simp
      ultimately show ?thesis
        using both by blast
    next
      case False
      then have "actuate dryRun 100 reason failures w = (100, reason, failures + 1, w1)"
        using wet Some by (simp add: actuate_cases first)
      then show ?thesis
        using assms one by blast
    qed
  qed
qed

text \<open>
  Claim C5. In an iteration whose emergency predicate gives a reason, the duty published
  is 100, the \<open>PIDTerms\<close> published are all zero, and the controller after the iteration
  is the controller before it, field for field: \<open>Calculate\<close> is not called and neither is
  \<open>Reset\<close>, so the next normal iteration starts from the integral that was there. Every
  invocation of the subprocess in the iteration commands 100 (none in a dry run, at most
  six otherwise).
\<close>

theorem emergency_bypasses_pid:
  "checkEmergencyConditions cpuTemp (GetMaxTemperature diskTemps) config \<noteq> [] \<Longrightarrow>
   \<exists>report s' w'.
     tick config dryRun (Inr (diskTemps, cpuTemp)) now s w = Some (Published report, s', w')
     \<and> fanDuty report = 100
     \<and> pidTerms report = \<lparr>term_P = 0, term_I = 0, term_D = 0, term_Error = 0\<rparr>
     \<and> emergencyReason report \<noteq> []
     \<and> pid s' = pid s
     \<and> (\<exists>k. k \<le> 6 \<and> invocations w' = invocations w @ replicate k (encode 100))"
proof -
  let ?reason = "checkEmergencyConditions cpuTemp (GetMaxTemperature diskTemps) config"
  let ?average = "GetAverageOfWarmest diskTemps (WarmestDisks (Temperature config))"
  assume emergency: "?reason \<noteq> []"
  then have sel: "select_duty config ?reason ?average now (pid s)
      = Some (100, \<lparr>term_P = 0, term_I = 0, term_D = 0, term_Error = 0\<rparr>, pid s)"
    by (simp add: select_duty_def)
  obtain reason' failures' w' where
    act: "actuate dryRun 100 ?reason (consecutiveIPMIFailures s) w = (100, reason', failures', w')"
    and reason': "reason' \<noteq> []"
    and inv: "\<exists>k. k \<le> 6 \<and> invocations w' = invocations w @ replicate k (encode 100)"
    using actuate_emergency [OF emergency, of dryRun "consecutiveIPMIFailures s" w] by blast
  let ?report = "\<lparr>fanDuty = 100, pidTerms = \<lparr>term_P = 0, term_I = 0, term_D = 0, term_Error = 0\<rparr>,
                  avgTemp = ?average, maxTemp = GetMaxTemperature diskTemps, emergencyReason = reason'\<rparr>"
  let ?s' = "\<lparr>pid = pid s, consecutiveIPMIFailures = failures'\<rparr>"
  have step: "tick config dryRun (Inr (diskTemps, cpuTemp)) now s w = Some (Published ?report, ?s', w')"
    by (simp add: tick_Inr sel act)
  have body: "tick config dryRun (Inr (diskTemps, cpuTemp)) now s w = Some (Published ?report, ?s', w')
     \<and> fanDuty ?report = 100
     \<and> pidTerms ?report = \<lparr>term_P = 0, term_I = 0, term_D = 0, term_Error = 0\<rparr>
     \<and> emergencyReason ?report \<noteq> []
     \<and> pid ?s' = pid s
     \<and> (\<exists>k. k \<le> 6 \<and> invocations w' = invocations w @ replicate k (encode 100))"
    using step reason' inv by simp
  show ?thesis
    by (rule exI [of _ ?report], rule exI [of _ ?s'], rule exI [of _ w']) (rule body)
qed

theorem emergency_bypasses_pid_witness:
  "checkEmergencyConditions 80 39 (setDefaults zero_Config) = ''cpu_temp''
   \<and> tick (setDefaults zero_Config) False (Inr ([(''sda'', 39)], 80)) 7
        \<lparr>pid = (NewPIDController 5 0.1 20 38 30 100 50)
                 \<lparr>Integral := 12, PrevError := 1, PrevTime := 3, FirstRun := False\<rparr>,
         consecutiveIPMIFailures = 0\<rparr>
        \<lparr>exit_ok = (\<lambda>k. True), invocations = []\<rparr>
     = Some (Published \<lparr>fanDuty = 100,
                        pidTerms = \<lparr>term_P = 0, term_I = 0, term_D = 0, term_Error = 0\<rparr>,
                        avgTemp = Finite 39, maxTemp = 39, emergencyReason = ''cpu_temp''\<rparr>,
             \<lparr>pid = (NewPIDController 5 0.1 20 38 30 100 50)
                      \<lparr>Integral := 12, PrevError := 1, PrevTime := 3, FirstRun := False\<rparr>,
              consecutiveIPMIFailures = 0\<rparr>,
             \<lparr>exit_ok = (\<lambda>k. True), invocations = [encode 100]\<rparr>)"
proof -
  let ?config = "setDefaults zero_Config"
  let ?p = "(NewPIDController 5 0.1 20 38 30 100 50)
              \<lparr>Integral := 12, PrevError := 1, PrevTime := 3, FirstRun := False\<rparr>"
  let ?w = "\<lparr>exit_ok = (\<lambda>k. True), invocations = []\<rparr>"
  have sorted: "bubble_outer (length (map snd [(''sda'', 39)])) (map snd [(''sda'', 39)]) 0 = [39]"
    by code_simp
  have total: "sum_loop [39] 1 0 0 = 39"
    by code_simp
  have average: "GetAverageOfWarmest [(''sda'', 39)] (WarmestDisks (Temperature ?config)) = Finite 39"
    unfolding GetAverageOfWarmest_def Let_def sorted
    by (simp add: total float64_div_def setDefaults_def zero_Config_def)
  have highest: "GetMaxTemperature [(''sda'', 39)] = 39"
    by (simp add: GetMaxTemperature_def)
  have reason: "checkEmergencyConditions 80 39 ?config = ''cpu_temp''"
    by (simp add: checkEmergencyConditions_def setDefaults_def zero_Config_def)
  then have emergency: "checkEmergencyConditions 80 (GetMaxTemperature [(''sda'', 39)]) ?config \<noteq> []"
    unfolding highest by simp
  have set100: "SetAllFans 100 ?w = (None, \<lparr>exit_ok = (\<lambda>k. True), invocations = [encode 100]\<rparr>)"
    by (simp add: SetAllFans_valid)
  have step: "tick ?config False (Inr ([(''sda'', 39)], 80)) 7 \<lparr>pid = ?p, consecutiveIPMIFailures = 0\<rparr> ?w
     = Some (Published \<lparr>fanDuty = 100,
                        pidTerms = \<lparr>term_P = 0, term_I = 0, term_D = 0, term_Error = 0\<rparr>,
                        avgTemp = Finite 39, maxTemp = 39, emergencyReason = ''cpu_temp''\<rparr>,
             \<lparr>pid = ?p, consecutiveIPMIFailures = 0\<rparr>,
             \<lparr>exit_ok = (\<lambda>k. True), invocations = [encode 100]\<rparr>)"
    by (simp add: tick_Inr average highest reason select_duty_def actuate_cases set100)
  show ?thesis
    using emergency_bypasses_pid [OF emergency, of False 7 "\<lparr>pid = ?p, consecutiveIPMIFailures = 0\<rparr>" ?w]
      reason step
    by simp
qed

end
